theory Spec2Isabelle
  imports Complex_Main
begin

section \<open>Errors raised by the scripts\<close>

text \<open>
  The Python exceptions that the modelled parts of \<^verbatim>\<open>scripts/txt2img.py\<close> and
  \<^verbatim>\<open>scripts/make_video.py\<close> can raise. A function that may raise returns
  \<open>py_error + 'a\<close>, with \<open>Inl\<close> for the exception.
\<close>

datatype py_error =
    ValueError
  | IndexError
  | AttributeError
  | AssertionError
  | FileNotFoundError
  | KeyError
  | ZeroDivisionError
  | RuntimeError
  | OSError
  | Cv2Error

section \<open>Command-line options\<close>

text \<open>
  The namespace \<^verbatim>\<open>opt\<close> that \<^verbatim>\<open>parser.parse_args()\<close> returns, one field per
  argument. \<^verbatim>\<open>--prompt\<close> has \<^verbatim>\<open>nargs="?"\<close>, so it is \<^verbatim>\<open>None\<close> when the flag is
  given without a value; \<^verbatim>\<open>--from-file\<close> is \<^verbatim>\<open>None\<close> when absent. The one-letter
  options \<^verbatim>\<open>H\<close>, \<^verbatim>\<open>W\<close>, \<^verbatim>\<open>C\<close> and \<^verbatim>\<open>f\<close> carry the prefix \<open>opt_\<close>.
\<close>

datatype precision_mode = Full | Autocast

record opts =
  prompt :: "string option"
  outdir :: string
  skip_grid :: bool
  skip_save :: bool
  ddim_steps :: int
  plms :: bool
  dpm_solver :: bool
  laion400m :: bool
  fixed_code :: bool
  ddim_eta :: real
  n_iter :: int
  opt_H :: int
  opt_W :: int
  opt_C :: int
  opt_f :: int
  n_samples :: int
  n_rows :: int
  scale :: real
  from_file :: "string option"
  config :: string
  ckpt :: string
  seed :: int
  precision :: precision_mode

text \<open>
  \<^verbatim>\<open>
  if opt.laion400m:
      opt.config = "configs/latent-diffusion/txt2img-1p4B-eval.yaml"
      opt.ckpt = "models/ldm/text2img-large/model.ckpt"
      opt.outdir = "outputs/txt2img-samples-laion400m"
  \<close>
\<close>

definition laion400m_preset :: "opts \<Rightarrow> opts" where
  "laion400m_preset opt =
     (if laion400m opt
      then opt\<lparr>config := ''configs/latent-diffusion/txt2img-1p4B-eval.yaml'',
               ckpt := ''models/ldm/text2img-large/model.ckpt'',
               outdir := ''outputs/txt2img-samples-laion400m''\<rparr>
      else opt)"

section \<open>The prompt batcher\<close>

text \<open>
  \<^verbatim>\<open>
  def chunk(it, size):
      it = iter(it)
      return iter(lambda: tuple(islice(it, size)), ())
  \<close>
  The two-argument \<^verbatim>\<open>iter\<close> calls the lambda until it returns the sentinel
  \<^verbatim>\<open>()\<close>: each call takes up to \<^verbatim>\<open>size\<close> further elements of the iterator.
  \<open>chunk_loop\<close> is that loop for a non-negative size; \<^verbatim>\<open>islice\<close> raises
  \<^verbatim>\<open>ValueError\<close> for a negative one, which is the \<open>Inl\<close> branch of \<open>chunk\<close>
  (the model of \<^verbatim>\<open>list(chunk(it, size))\<close>).
\<close>

function chunk_loop :: "'a list \<Rightarrow> nat \<Rightarrow> 'a list list" where
  "chunk_loop it sz =
     (if take sz it = [] then []
      else take sz it # chunk_loop (drop sz it) sz)"
  by pat_completeness auto
termination
  by (relation "measure (\<lambda>(it, sz). length it)") auto

declare chunk_loop.simps [simp del]

definition chunk :: "'a list \<Rightarrow> int \<Rightarrow> py_error + 'a list list" where
  "chunk it sz =
     (if sz < 0 then Inl ValueError else Inr (chunk_loop it (nat sz)))"

text \<open>
  \<^verbatim>\<open>
  batch_size = opt.n_samples
  if not opt.from_file:
      prompt = opt.prompt
      assert prompt is not None
      data = [batch_size * [prompt]]
  else:
      with open(opt.from_file, "r") as f:
          data = f.read().splitlines()
          data = list(chunk(data, batch_size))
  \<close>
  \<open>prompt_files\<close> gives, for the path of a readable text file, the list
  \<^verbatim>\<open>f.read().splitlines()\<close>, and \<open>None\<close> for a path that cannot be opened. An empty
  path is falsy, like \<^verbatim>\<open>None\<close>. Python's \<^verbatim>\<open>n * [x]\<close> is the empty list for
  \<^verbatim>\<open>n \<le> 0\<close>.
\<close>

definition prompt_data ::
  "(string \<Rightarrow> string list option) \<Rightarrow> opts \<Rightarrow> py_error + string list list" where
  "prompt_data prompt_files opt =
     (let batch_size = n_samples opt in
      if from_file opt = None \<or> from_file opt = Some []
      then (case prompt opt of
              None \<Rightarrow> Inl AssertionError
            | Some p \<Rightarrow> Inr [replicate (nat batch_size) p])
      else (case prompt_files (the (from_file opt)) of
              None \<Rightarrow> Inl FileNotFoundError
            | Some data \<Rightarrow> chunk data batch_size))"

section \<open>Sampler selection\<close>

text \<open>
  \<^verbatim>\<open>
  if opt.dpm_solver:
      sampler = DPMSolverSampler(model)
  elif opt.plms:
      sampler = PLMSSampler(model)
  else:
      sampler = DDIMSampler(model)
  \<close>
\<close>

datatype 'm sampler = DPMSolverSampler 'm | PLMSSampler 'm | DDIMSampler 'm

definition define_sampler :: "opts \<Rightarrow> 'm \<Rightarrow> 'm sampler" where
  "define_sampler opt model =
     (if dpm_solver opt then DPMSolverSampler model
      else if plms opt then PLMSSampler model
      else DDIMSampler model)"

section \<open>File names: zero-padded counters\<close>

text \<open>
  The format specifications \<^verbatim>\<open>{base_count:05}\<close>, \<^verbatim>\<open>{counter:05}\<close> and
  \<^verbatim>\<open>{grid_count:04}\<close> print a Python int in decimal, padded with zeros after the
  sign up to the given width; a number with more digits is printed in full.
\<close>

definition digit_char :: "nat \<Rightarrow> char" where
  "digit_char d = ''0123456789'' ! d"

fun digits :: "nat \<Rightarrow> string" where
  "digits n = (if n < 10 then [digit_char n] else digits (n div 10) @ [digit_char (n mod 10)])"

declare digits.simps [simp del]

definition format_0 :: "nat \<Rightarrow> int \<Rightarrow> string" where
  "format_0 w n =
     (let ds = digits (nat \<bar>n\<bar>);
          sgn = (if n < 0 then ''-'' else [])
      in sgn @ replicate (w - (length sgn + length ds)) CHR ''0'' @ ds)"

definition sample_name :: "int \<Rightarrow> string" where
  "sample_name n = format_0 5 n @ ''.png''"

definition grid_name :: "int \<Rightarrow> string" where
  "grid_name n = ''grid-'' @ format_0 4 n @ ''.png''"


section \<open>The output directory\<close>

text \<open>
  The output directory \<^verbatim>\<open>opt.outdir\<close> as the script sees it: its entries in listing
  order, each a file or a subdirectory with the names of its own entries. An output
  directory that does not exist yet is the empty list (\<^verbatim>\<open>os.makedirs\<close> creates it).
  Pixel content is not modelled: the model keeps which names exist where.
\<close>

datatype node = File | Dir "string list"

type_synonym tree = "(string \<times> node) list"

text \<open>\<^verbatim>\<open>os.makedirs(os.path.join(outpath, name), exist_ok=True)\<close>\<close>

definition makedirs :: "string \<Rightarrow> tree \<Rightarrow> py_error + tree" where
  "makedirs name t =
     (case map_of t name of
        None \<Rightarrow> Inr (t @ [(name, Dir [])])
      | Some (Dir es) \<Rightarrow> Inr t
      | Some File \<Rightarrow> Inl OSError)"

text \<open>\<^verbatim>\<open>os.listdir(outpath)\<close> and \<^verbatim>\<open>os.listdir(os.path.join(outpath, name))\<close>\<close>

definition listdir_root :: "tree \<Rightarrow> string list" where
  "listdir_root t = map fst t"

definition listdir :: "string \<Rightarrow> tree \<Rightarrow> py_error + string list" where
  "listdir name t =
     (case map_of t name of
        Some (Dir es) \<Rightarrow> Inr es
      | Some File \<Rightarrow> Inl OSError
      | None \<Rightarrow> Inl FileNotFoundError)"

text \<open>
  \<^verbatim>\<open>img.save(os.path.join(outpath, name))\<close> and
  \<^verbatim>\<open>img.save(os.path.join(outpath, sub, name))\<close>: a new name becomes a new entry, an
  existing file of that name is overwritten.
\<close>

definition save_root :: "string \<Rightarrow> tree \<Rightarrow> py_error + tree" where
  "save_root name t =
     (case map_of t name of
        None \<Rightarrow> Inr (t @ [(name, File)])
      | Some File \<Rightarrow> Inr t
      | Some (Dir es) \<Rightarrow> Inl OSError)"

definition add_entry :: "string \<Rightarrow> string \<Rightarrow> string \<times> node \<Rightarrow> string \<times> node" where
  "add_entry sub name e =
     (case e of
        (k, Dir es) \<Rightarrow>
          if k = sub then (k, Dir (if name \<in> set es then es else es @ [name])) else e
      | (k, File) \<Rightarrow> e)"

definition save_in :: "string \<Rightarrow> string \<Rightarrow> tree \<Rightarrow> py_error + tree" where
  "save_in sub name t =
     (case map_of t sub of
        Some (Dir es) \<Rightarrow> Inr (map (add_entry sub name) t)
      | Some File \<Rightarrow> Inl OSError
      | None \<Rightarrow> Inl FileNotFoundError)"

section \<open>Arrays, models and the external libraries\<close>

text \<open>
  A numpy array as far as the scripts look at it: its shape, its dtype and its pixel
  data. An image batch (a rank-4 array, batch first) is the list of its images.
\<close>

datatype dtype = UInt8 | Float16 | Float32 | Float64

record 'px ndarray =
  shape :: "nat list"
  dtype :: dtype
  pixels :: 'px

datatype device = Cuda | Cpu

text \<open>
  The generative model: its weights, the device it lives on and its train/eval mode.
  A checkpoint file is a dictionary that may hold \<^verbatim>\<open>global_step\<close> and
  \<^verbatim>\<open>state_dict\<close>.
\<close>

record 'w model =
  params :: 'w
  on_device :: device
  training :: bool

record 'w checkpoint =
  global_step :: "int option"
  state_dict :: "'w option"

text \<open>The keyword arguments of one \<^verbatim>\<open>sampler.sample(...)\<close> call.\<close>

record ('cond, 'lat) sample_args =
  arg_S :: int
  arg_conditioning :: 'cond
  arg_batch_size :: int
  arg_shape :: "int list"
  arg_unconditional_guidance_scale :: real
  arg_unconditional_conditioning :: "'cond option"
  arg_eta :: real
  arg_x_T :: "'lat option"

text \<open>
  The libraries the scripts call (torch, pytorch-lightning, ldm, diffusers, PIL) are
  not part of the repository; they are parameters of the model. The global random
  generator is an explicit state \<open>'g\<close>, threaded through every call that may draw
  from it.
  \<^item> \<open>seed_everything\<close>: the generator state after \<^verbatim>\<open>seed_everything(seed)\<close>;
  \<^item> \<open>instantiate_from_config\<close>: the freshly constructed network;
  \<^item> \<open>load_state_dict\<close>: \<^verbatim>\<open>model.load_state_dict(sd, strict=False)\<close>;
  \<^item> \<open>randn\<close>: \<^verbatim>\<open>torch.randn(shape, device=device)\<close>;
  \<^item> \<open>get_learned_conditioning\<close>: the model's text embedding of a list of prompts;
  \<^item> \<open>sample\<close>: one call of the selected sampler; it returns the final latent batch
    and the pairs \<^verbatim>\<open>(prev, imgx0)\<close> it passed to \<^verbatim>\<open>img_callback\<close>, in order;
  \<^item> \<open>decode_first_stage\<close>: \<^verbatim>\<open>model.decode_first_stage\<close> followed by the remapping
    to \<open>[0,1]\<close>, the clamp and the permutation to batch \<open>\<times>\<close> H \<open>\<times>\<close> W \<open>\<times>\<close> C;
  \<^item> \<open>safety_checker\<close>: the classifier, from an image batch to the batch it hands
    back and one flag per image;
  \<^item> \<open>resize_asset\<close>: the pixels of the opened placeholder converted to RGB, resized
    to a width and a height, divided by 255 and cast to a dtype.
\<close>

record ('g, 'w, 'cfg, 'cond, 'lat, 'px, 'a) lib =
  seed_everything :: "int \<Rightarrow> 'g"
  instantiate_from_config :: "'cfg \<Rightarrow> 'g \<Rightarrow> 'w \<times> 'g"
  load_state_dict :: "'w \<Rightarrow> 'w \<Rightarrow> 'w"
  randn :: "int list \<Rightarrow> device \<Rightarrow> 'g \<Rightarrow> 'lat \<times> 'g"
  get_learned_conditioning :: "'w model \<Rightarrow> string list \<Rightarrow> 'cond"
  sample :: "'w model sampler \<Rightarrow> ('cond, 'lat) sample_args \<Rightarrow> 'g
               \<Rightarrow> ('lat \<times> ('lat \<times> 'lat) list) \<times> 'g"
  decode_first_stage :: "'w model \<Rightarrow> 'lat \<Rightarrow> 'px ndarray list"
  safety_checker :: "'px ndarray list \<Rightarrow> 'px ndarray list \<times> bool list"
  resize_asset :: "'a \<Rightarrow> nat \<Rightarrow> nat \<Rightarrow> dtype \<Rightarrow> 'px"

text \<open>
  The machine the script runs on: whether \<^verbatim>\<open>torch.cuda.is_available()\<close>, the
  readable config, checkpoint and prompt files by path, the placeholder
  \<^verbatim>\<open>assets/rick.jpeg\<close> (\<open>None\<close> when it cannot be opened) and the output
  directories by path.
\<close>

record ('w, 'cfg, 'a) env =
  cuda_available :: bool
  config_files :: "string \<Rightarrow> 'cfg option"
  ckpt_files :: "string \<Rightarrow> 'w checkpoint option"
  prompt_files :: "string \<Rightarrow> string list option"
  rick :: "'a option"
  out_dirs :: "string \<Rightarrow> tree"

section \<open>The model loader\<close>

text \<open>
  \<^verbatim>\<open>
  def load_model_from_config(config, ckpt, verbose=False):
      pl_sd = torch.load(ckpt, map_location="cpu")
      sd = pl_sd["state_dict"]
      model = instantiate_from_config(config.model)
      m, u = model.load_state_dict(sd, strict=False)
      model.cuda()
      model.eval()
      return model
  \<close>
  \<^verbatim>\<open>model.cuda()\<close> is called whatever the machine has: it raises when CUDA is not
  available (\<^verbatim>\<open>RuntimeError\<close>; an \<^verbatim>\<open>AssertionError\<close> in a torch build without CUDA).
  The prints are left out.
\<close>

definition load_model_from_config ::
  "('g, 'w, 'cfg, 'cond, 'lat, 'px, 'a) lib \<Rightarrow> ('w, 'cfg, 'a) env \<Rightarrow> 'cfg \<Rightarrow> string \<Rightarrow> 'g
     \<Rightarrow> py_error + ('w model \<times> 'g)" where
  "load_model_from_config L E cfg ckpt_path g =
     (case ckpt_files E ckpt_path of
        None \<Rightarrow> Inl FileNotFoundError
      | Some pl_sd \<Rightarrow>
          (case state_dict pl_sd of
             None \<Rightarrow> Inl KeyError
           | Some sd \<Rightarrow>
               (case instantiate_from_config L cfg g of
                  (w, g') \<Rightarrow>
                    let model = \<lparr>params = load_state_dict L sd w, on_device = Cpu, training = True\<rparr>
                    in if \<not> cuda_available E then Inl RuntimeError
                       else Inr (model\<lparr>on_device := Cuda, training := False\<rparr>, g'))))"

text \<open>
  \<^verbatim>\<open>
  model = load_model_from_config(config, f"{opt.ckpt}")
  device = torch.device("cuda") if torch.cuda.is_available() else torch.device("cpu")
  model = model.to(device)
  \<close>
\<close>

definition best_device :: "('w, 'cfg, 'a) env \<Rightarrow> device" where
  "best_device E = (if cuda_available E then Cuda else Cpu)"

definition load_model ::
  "('g, 'w, 'cfg, 'cond, 'lat, 'px, 'a) lib \<Rightarrow> ('w, 'cfg, 'a) env \<Rightarrow> 'cfg \<Rightarrow> string \<Rightarrow> 'g
     \<Rightarrow> py_error + ('w model \<times> 'g)" where
  "load_model L E cfg ckpt_path g =
     (case load_model_from_config L E cfg ckpt_path g of
        Inl e \<Rightarrow> Inl e
      | Inr (model, g') \<Rightarrow> Inr (model\<lparr>on_device := best_device E\<rparr>, g'))"

section \<open>The safety check\<close>

text \<open>
  \<^verbatim>\<open>
  def load_replacement(x):
      try:
          hwc = x.shape
          y = Image.open("assets/rick.jpeg").convert("RGB").resize((hwc[1], hwc[0]))
          y = (np.array(y) / 255.0).astype(x.dtype)
          assert y.shape == x.shape
          return y
      except Exception:
          return x
  \<close>
  \<open>try_load_replacement\<close> is the body of the \<^verbatim>\<open>try\<close>, with each exception as a
  value: the asset that cannot be opened, the index into a shape of fewer than two
  dimensions, PIL's refusal of an empty size, and the failed assertion. The array of an
  RGB image resized to \<open>(w, h)\<close> has shape \<open>[h, w, 3]\<close>.
\<close>

definition try_load_replacement ::
  "('a \<Rightarrow> nat \<Rightarrow> nat \<Rightarrow> dtype \<Rightarrow> 'px) \<Rightarrow> 'a option \<Rightarrow> 'px ndarray \<Rightarrow> py_error + 'px ndarray" where
  "try_load_replacement resize asset x =
     (let hwc = shape x in
      case asset of
        None \<Rightarrow> Inl FileNotFoundError
      | Some a \<Rightarrow>
          if length hwc < 2 then Inl IndexError
          else if hwc ! 1 = 0 \<or> hwc ! 0 = 0 then Inl ValueError
          else
            let y = \<lparr>shape = [hwc ! 0, hwc ! 1, 3], dtype = dtype x,
                     pixels = resize a (hwc ! 1) (hwc ! 0) (dtype x)\<rparr>
            in if shape y \<noteq> shape x then Inl AssertionError else Inr y)"

definition load_replacement ::
  "('a \<Rightarrow> nat \<Rightarrow> nat \<Rightarrow> dtype \<Rightarrow> 'px) \<Rightarrow> 'a option \<Rightarrow> 'px ndarray \<Rightarrow> 'px ndarray" where
  "load_replacement resize asset x =
     (case try_load_replacement resize asset x of
        Inl e \<Rightarrow> x
      | Inr y \<Rightarrow> y)"

text \<open>
  \<^verbatim>\<open>
  def check_safety(x_image):
      x_checked_image, has_nsfw_concept = safety_checker(images=x_image, ...)
      assert x_checked_image.shape[0] == len(has_nsfw_concept)
      for i in range(len(has_nsfw_concept)):
          if has_nsfw_concept[i]:
              x_checked_image[i] = load_replacement(x_checked_image[i])
      return x_checked_image, has_nsfw_concept
  \<close>
\<close>

definition replace_flagged ::
  "('a \<Rightarrow> nat \<Rightarrow> nat \<Rightarrow> dtype \<Rightarrow> 'px) \<Rightarrow> 'a option \<Rightarrow> bool list \<Rightarrow> nat
     \<Rightarrow> 'px ndarray list \<Rightarrow> 'px ndarray list" where
  "replace_flagged resize asset has_nsfw_concept i x_checked_image =
     (if has_nsfw_concept ! i
      then x_checked_image[i := load_replacement resize asset (x_checked_image ! i)]
      else x_checked_image)"

definition check_safety ::
  "('g, 'w, 'cfg, 'cond, 'lat, 'px, 'a) lib \<Rightarrow> 'a option \<Rightarrow> 'px ndarray list
     \<Rightarrow> py_error + ('px ndarray list \<times> bool list)" where
  "check_safety L asset x_image =
     (case safety_checker L x_image of
        (x_checked_image, has_nsfw_concept) \<Rightarrow>
          if length x_checked_image \<noteq> length has_nsfw_concept then Inl AssertionError
          else Inr (fold (replace_flagged (resize_asset L) asset has_nsfw_concept)
                      [0..<length has_nsfw_concept] x_checked_image,
                    has_nsfw_concept))"

section \<open>The generation loop\<close>

text \<open>
  The variables of \<^verbatim>\<open>main\<close> that change while it runs: the output directory, the
  two counters, the two lists the step callback fills, the grid buffer and the random
  generator. Two logs are kept beside them, for stating properties: every
  \<^verbatim>\<open>img.save\<close> in order, as the subdirectory (empty for the output root) and the file
  name, and the arguments of every \<^verbatim>\<open>sampler.sample\<close> call in order.
\<close>

record ('g, 'cond, 'lat, 'px) run_state =
  out :: tree
  saved :: "(string \<times> string) list"
  base_count :: int
  grid_count :: int
  processList :: "'lat list"
  process2List :: "'lat list"
  all_samples :: "'px ndarray list list"
  rng :: 'g
  sampler_calls :: "('cond, 'lat) sample_args list"

text \<open>
  The innermost loop of all three save sites, one file per image of a batch:
  \<^verbatim>\<open>
  for ... in batch:
      img.save(os.path.join(path, f"{counter:05}.png"))
      counter += 1
  \<close>
\<close>

fun save_each ::
  "string \<Rightarrow> 'x list \<Rightarrow> int \<Rightarrow> ('g, 'cond, 'lat, 'px) run_state
     \<Rightarrow> py_error + (int \<times> ('g, 'cond, 'lat, 'px) run_state)" where
  "save_each sub [] counter s = Inr (counter, s)"
| "save_each sub (x # xs) counter s =
     (case save_in sub (sample_name counter) (out s) of
        Inl e \<Rightarrow> Inl e
      | Inr t \<Rightarrow>
          save_each sub xs (counter + 1)
            (s\<lparr>out := t, saved := saved s @ [(sub, sample_name counter)]\<rparr>))"

text \<open>
  \<^verbatim>\<open>
  def saveImages():
      counter = 0
      for imgstep in process2List:
          samples = model.decode_first_stage(imgstep) ...
          for i, sample in enumerate(checked_image_torch):
              img.save(os.path.join(process2_path, f"{counter:05}.png"))
              counter += 1
      counter = 0
      for imgstep in processList:
          ... img.save(os.path.join(process_path, f"{counter:05}.png")) ...
      processList.clear()
      process2List.clear()
  \<close>
\<close>

fun save_steps ::
  "('w model \<Rightarrow> 'lat \<Rightarrow> 'px ndarray list) \<Rightarrow> 'w model \<Rightarrow> string \<Rightarrow> 'lat list \<Rightarrow> int
     \<Rightarrow> ('g, 'cond, 'lat, 'px) run_state
     \<Rightarrow> py_error + (int \<times> ('g, 'cond, 'lat, 'px) run_state)" where
  "save_steps decode model sub [] counter s = Inr (counter, s)"
| "save_steps decode model sub (imgstep # rest) counter s =
     (case save_each sub (decode model imgstep) counter s of
        Inl e \<Rightarrow> Inl e
      | Inr (counter', s') \<Rightarrow> save_steps decode model sub rest counter' s')"

definition saveImages ::
  "('g, 'w, 'cfg, 'cond, 'lat, 'px, 'a) lib \<Rightarrow> 'w model \<Rightarrow> ('g, 'cond, 'lat, 'px) run_state
     \<Rightarrow> py_error + ('g, 'cond, 'lat, 'px) run_state" where
  "saveImages L model s =
     (case save_steps (decode_first_stage L) model ''process2'' (process2List s) 0 s of
        Inl e \<Rightarrow> Inl e
      | Inr (c2, s2) \<Rightarrow>
          (case save_steps (decode_first_stage L) model ''process'' (processList s2) 0 s2 of
             Inl e \<Rightarrow> Inl e
           | Inr (c1, s1) \<Rightarrow> Inr (s1\<lparr>processList := [], process2List := []\<rparr>)))"

text \<open>
  The body of \<^verbatim>\<open>for prompts in tqdm(data, desc="data")\<close>: the conditionings, the
  sampler call with \<^verbatim>\<open>x_T=start_code\<close> (its callback appends to the two lists),
  \<^verbatim>\<open>saveImages()\<close>, the decoding and the safety check, then
  \<^verbatim>\<open>
  if not opt.skip_save:
      for x_sample in x_checked_image_torch:
          img.save(os.path.join(sample_path, f"{base_count:05}.png"))
          base_count += 1
  if not opt.skip_grid:
      all_samples.append(x_checked_image_torch)
  \<close>
  \<^verbatim>\<open>opt.H // opt.f\<close> raises \<^verbatim>\<open>ZeroDivisionError\<close> for \<^verbatim>\<open>f = 0\<close>.
\<close>

definition batch_step ::
  "('g, 'w, 'cfg, 'cond, 'lat, 'px, 'a) lib \<Rightarrow> 'a option \<Rightarrow> opts \<Rightarrow> 'w model
     \<Rightarrow> 'w model sampler \<Rightarrow> 'lat option \<Rightarrow> string list
     \<Rightarrow> ('g, 'cond, 'lat, 'px) run_state \<Rightarrow> py_error + ('g, 'cond, 'lat, 'px) run_state" where
  "batch_step L asset opt model sampler start_code prompts s =
     (let batch_size = n_samples opt;
          uc = (if scale opt \<noteq> 1
                then Some (get_learned_conditioning L model (replicate (nat batch_size) []))
                else None);
          c = get_learned_conditioning L model prompts
      in if opt_f opt = 0 then Inl ZeroDivisionError
         else
           let args = \<lparr>arg_S = ddim_steps opt,
                       arg_conditioning = c,
                       arg_batch_size = n_samples opt,
                       arg_shape = [opt_C opt, opt_H opt div opt_f opt, opt_W opt div opt_f opt],
                       arg_unconditional_guidance_scale = scale opt,
                       arg_unconditional_conditioning = uc,
                       arg_eta = ddim_eta opt,
                       arg_x_T = start_code\<rparr>
           in case sample L sampler args (rng s) of
                ((samples_ddim, steps), g') \<Rightarrow>
                  (case saveImages L model
                          (s\<lparr>processList := processList s @ map fst steps,
                             process2List := process2List s @ map snd steps,
                             rng := g',
                             sampler_calls := sampler_calls s @ [args]\<rparr>) of
                     Inl e \<Rightarrow> Inl e
                   | Inr s1 \<Rightarrow>
                       (case check_safety L asset (decode_first_stage L model samples_ddim) of
                          Inl e \<Rightarrow> Inl e
                        | Inr (x_checked_image, has_nsfw_concept) \<Rightarrow>
                            (case (if skip_save opt then Inr (base_count s1, s1)
                                   else save_each ''samples'' x_checked_image (base_count s1) s1) of
                               Inl e \<Rightarrow> Inl e
                             | Inr (n, s2) \<Rightarrow>
                                 Inr (s2\<lparr>base_count := n,
                                         all_samples :=
                                           (if skip_grid opt then all_samples s2
                                            else all_samples s2 @ [x_checked_image])\<rparr>)))))"

text \<open>\<^verbatim>\<open>for prompts in tqdm(data, desc="data")\<close>\<close>

fun run_data ::
  "(string list \<Rightarrow> 's \<Rightarrow> py_error + 's) \<Rightarrow> string list list \<Rightarrow> 's \<Rightarrow> py_error + 's" where
  "run_data body [] s = Inr s"
| "run_data body (prompts # rest) s =
     (case body prompts s of
        Inl e \<Rightarrow> Inl e
      | Inr s' \<Rightarrow> run_data body rest s')"

text \<open>\<^verbatim>\<open>for n in trange(opt.n_iter, desc="Sampling")\<close>; the range is empty for \<^verbatim>\<open>n_iter \<le> 0\<close>.\<close>

fun run_iter ::
  "(string list \<Rightarrow> 's \<Rightarrow> py_error + 's) \<Rightarrow> string list list \<Rightarrow> nat \<Rightarrow> 's \<Rightarrow> py_error + 's" where
  "run_iter body data 0 s = Inr s"
| "run_iter body data (Suc n) s =
     (case run_data body data s of
        Inl e \<Rightarrow> Inl e
      | Inr s' \<Rightarrow> run_iter body data n s')"

text \<open>
  \<^verbatim>\<open>
  if not opt.skip_grid:
      grid = torch.stack(all_samples, 0)
      ...
      img.save(os.path.join(outpath, f'grid-{grid_count:04}.png'))
      grid_count += 1
  \<close>
  \<^verbatim>\<open>torch.stack\<close> raises \<^verbatim>\<open>RuntimeError\<close> on an empty list.
\<close>

definition save_grid ::
  "opts \<Rightarrow> ('g, 'cond, 'lat, 'px) run_state \<Rightarrow> py_error + ('g, 'cond, 'lat, 'px) run_state" where
  "save_grid opt s =
     (if skip_grid opt then Inr s
      else if all_samples s = [] then Inl RuntimeError
      else (case save_root (grid_name (grid_count s)) (out s) of
              Inl e \<Rightarrow> Inl e
            | Inr t \<Rightarrow>
                Inr (s\<lparr>out := t,
                       saved := saved s @ [([], grid_name (grid_count s))],
                       grid_count := grid_count s + 1\<rparr>)))"

section \<open>The script \<^verbatim>\<open>txt2img.py\<close>\<close>

text \<open>
  \<^verbatim>\<open>
  os.makedirs(sample_path, exist_ok=True)
  os.makedirs(process_path, exist_ok=True)
  os.makedirs(process2_path, exist_ok=True)
  \<close>
\<close>

definition setup_dirs :: "tree \<Rightarrow> py_error + tree" where
  "setup_dirs t =
     (case makedirs ''samples'' t of
        Inl e \<Rightarrow> Inl e
      | Inr t1 \<Rightarrow>
          (case makedirs ''process'' t1 of
             Inl e \<Rightarrow> Inl e
           | Inr t2 \<Rightarrow> makedirs ''process2'' t2))"

text \<open>
  \<^verbatim>\<open>
  start_code = None
  if opt.fixed_code:
      start_code = torch.randn([opt.n_samples, opt.C, opt.H // opt.f, opt.W // opt.f], device=device)
  \<close>
\<close>

definition make_start_code ::
  "('g, 'w, 'cfg, 'cond, 'lat, 'px, 'a) lib \<Rightarrow> opts \<Rightarrow> device \<Rightarrow> 'g
     \<Rightarrow> py_error + ('lat option \<times> 'g)" where
  "make_start_code L opt dev g =
     (if fixed_code opt
      then (if opt_f opt = 0 then Inl ZeroDivisionError
            else (case randn L [n_samples opt, opt_C opt, opt_H opt div opt_f opt,
                                opt_W opt div opt_f opt] dev g of
                    (x, g') \<Rightarrow> Inr (Some x, g')))
      else Inr (None, g))"

text \<open>What a finished run leaves: the model, the sampler, the start code and the final state.\<close>

record ('g, 'w, 'cond, 'lat, 'px) run =
  the_model :: "'w model"
  the_sampler :: "'w model sampler"
  start_code :: "'lat option"
  final :: "('g, 'cond, 'lat, 'px) run_state"

text \<open>
  \<^verbatim>\<open>main\<close>, in the order of the source: the preset, the seed, the config and the
  model, the device, the sampler, the prompt data, the three subdirectories, the two
  counters
  \<^verbatim>\<open>
  base_count = len(os.listdir(sample_path))
  grid_count = len(os.listdir(outpath)) - 1
  \<close>
  the start code, the two nested loops and the grid.
\<close>

definition main ::
  "('g, 'w, 'cfg, 'cond, 'lat, 'px, 'a) lib \<Rightarrow> ('w, 'cfg, 'a) env \<Rightarrow> opts
     \<Rightarrow> py_error + ('g, 'w, 'cond, 'lat, 'px) run" where
  "main L E opt0 =
     (let opt = laion400m_preset opt0;
          g0 = seed_everything L (seed opt)
      in case config_files E (config opt) of
           None \<Rightarrow> Inl FileNotFoundError
         | Some cfg \<Rightarrow>
      (case load_model L E cfg (ckpt opt) g0 of
           Inl e \<Rightarrow> Inl e
         | Inr (model, g1) \<Rightarrow>
      let sampler = define_sampler opt model;
          outpath = out_dirs E (outdir opt)
      in (case prompt_data (prompt_files E) opt of
           Inl e \<Rightarrow> Inl e
         | Inr data \<Rightarrow>
      (case setup_dirs outpath of
           Inl e \<Rightarrow> Inl e
         | Inr t \<Rightarrow>
      (case listdir ''samples'' t of
           Inl e \<Rightarrow> Inl e
         | Inr es \<Rightarrow>
      (case make_start_code L opt (best_device E) g1 of
           Inl e \<Rightarrow> Inl e
         | Inr (code, g2) \<Rightarrow>
      (case run_iter (batch_step L (rick E) opt model sampler code) data (nat (n_iter opt))
              \<lparr>out = t, saved = [],
               base_count = int (length es),
               grid_count = int (length (listdir_root t)) - 1,
               processList = [], process2List = [], all_samples = [],
               rng = g2, sampler_calls = []\<rparr> of
           Inl e \<Rightarrow> Inl e
         | Inr s \<Rightarrow>
      (case save_grid opt s of
           Inl e \<Rightarrow> Inl e
         | Inr s' \<Rightarrow>
             Inr \<lparr>the_model = model, the_sampler = sampler, start_code = code,
                  final = s'\<rparr>))))))))"

section \<open>The script \<^verbatim>\<open>make_video.py\<close>\<close>

text \<open>
  \<^verbatim>\<open>
  def write_video(video_name, image_folder):
      images = [img for img in os.listdir(image_folder) if img.endswith(".png")]
      frame = cv2.imread(os.path.join(image_folder, images[0]))
      height, width, layers = frame.shape
      video = cv2.VideoWriter(video_name, 0, 5, (width, height))
      for image in images:
          video.write(cv2.imread(os.path.join(image_folder, image)))
      cv2.destroyAllWindows()
      video.release()
  \<close>
  The folder is its listing, in the order \<^verbatim>\<open>os.listdir\<close> gives it, and what
  \<^verbatim>\<open>cv2.imread\<close> returns for each name (\<open>None\<close> for a file it cannot decode). The
  video is the writer's parameters and the frames handed to \<^verbatim>\<open>video.write\<close>, in
  order. Indexing the empty list raises \<^verbatim>\<open>IndexError\<close>, \<^verbatim>\<open>None\<close> has no
  \<^verbatim>\<open>shape\<close>, a shape of another rank does not unpack into three names, and
  \<^verbatim>\<open>video.write(None)\<close> raises \<^verbatim>\<open>cv2.error\<close>.
\<close>

record 'px video =
  video_name :: string
  fourcc :: int
  fps :: int
  frame_size :: "nat \<times> nat"
  frames :: "'px ndarray list"

definition endswith :: "string \<Rightarrow> string \<Rightarrow> bool" where
  "endswith s suffix =
     (length suffix \<le> length s \<and> drop (length s - length suffix) s = suffix)"

fun write_frames ::
  "(string \<Rightarrow> 'px ndarray option) \<Rightarrow> string list \<Rightarrow> 'px video \<Rightarrow> py_error + 'px video" where
  "write_frames imread [] video = Inr video"
| "write_frames imread (img # rest) video =
     (case imread img of
        None \<Rightarrow> Inl Cv2Error
      | Some fr \<Rightarrow> write_frames imread rest (video\<lparr>frames := frames video @ [fr]\<rparr>))"

definition write_video ::
  "string \<Rightarrow> string list \<Rightarrow> (string \<Rightarrow> 'px ndarray option) \<Rightarrow> py_error + 'px video" where
  "write_video name listing imread =
     (let images = filter (\<lambda>img. endswith img ''.png'') listing
      in case images of
           [] \<Rightarrow> Inl IndexError
         | first # _ \<Rightarrow>
             (case imread first of
                None \<Rightarrow> Inl AttributeError
              | Some frame \<Rightarrow>
                  (case shape frame of
                     [height, width, layers] \<Rightarrow>
                       write_frames imread images
                         \<lparr>video_name = name, fourcc = 0, fps = 5,
                          frame_size = (width, height), frames = []\<rparr>
                   | _ \<Rightarrow> Inl ValueError)))"

section \<open>Reading a run\<close>

text \<open>The names saved into one subdirectory (the empty name is the output root), in order.\<close>

definition saved_in :: "string \<Rightarrow> (string \<times> string) list \<Rightarrow> string list" where
  "saved_in sub entries = map snd (filter (\<lambda>e. fst e = sub) entries)"


text \<open>The three subdirectories \<^verbatim>\<open>main\<close> creates.\<close>

definition subdirs :: "string list" where
  "subdirs = [''samples'', ''process'', ''process2'']"

section \<open>A concrete instance\<close>

text \<open>The defaults of the argument parser.\<close>

definition default_opts :: opts where
  "default_opts =
     \<lparr>prompt = Some ''a painting of a virus monster playing guitar'',
      outdir = ''outputs/txt2img-samples'',
      skip_grid = False, skip_save = False, ddim_steps = 50,
      plms = False, dpm_solver = False, laion400m = False, fixed_code = False,
      ddim_eta = 0, n_iter = 2, opt_H = 512, opt_W = 512, opt_C = 4, opt_f = 8,
      n_samples = 3, n_rows = 0, scale = 7.5, from_file = None,
      config = ''configs/stable-diffusion/v1-inference.yaml'',
      ckpt = ''models/ldm/stable-diffusion-v1/model.ckpt'',
      seed = 42, precision = Autocast\<rparr>"

text \<open>
  A small library to run the model on: the generator is a counter, a latent batch is
  the list of its entries, the sampler returns as many entries as its batch size and
  reports one callback step, every decoded image is
  2 \<open>\<times>\<close> 2 RGB, and the classifier flags the images whose pixel value is 0.
\<close>

definition demo_lib :: "(nat, nat, string, string list, nat list, nat, nat) lib" where
  "demo_lib =
     \<lparr>seed_everything = (\<lambda>s. nat s),
      instantiate_from_config = (\<lambda>cfg g. (0, g + 1)),
      load_state_dict = (\<lambda>sd w. sd),
      randn = (\<lambda>shp dev g. (replicate (nat (hd shp)) g, g + 1)),
      get_learned_conditioning = (\<lambda>m ps. ps),
      sample = (\<lambda>smp args g.
        (case replicate (nat (arg_batch_size args))
                (case arg_x_T args of Some x \<Rightarrow> sum_list x | None \<Rightarrow> g) of
           lat \<Rightarrow> ((lat, [(lat, lat)]), g + 1))),
      decode_first_stage =
        (\<lambda>m lat. map (\<lambda>v. \<lparr>shape = [2, 2, 3], dtype = Float32, pixels = v\<rparr>) lat),
      safety_checker = (\<lambda>xs. (xs, map (\<lambda>x. pixels x = 0) xs)),
      resize_asset = (\<lambda>a w h dt. a + w + h)\<rparr>"

text \<open>
  A machine with CUDA, every config and checkpoint readable, one prompt file of three
  lines, the placeholder present, and an output directory as one earlier run with one
  batch of two samples left it.
\<close>

definition demo_tree :: tree where
  "demo_tree =
     [(''samples'', Dir [''00000.png'', ''00001.png'']),
      (''process'', Dir [''00000.png'', ''00001.png'']),
      (''process2'', Dir [''00000.png'', ''00001.png'']),
      (''grid-0002.png'', File)]"

definition demo_env :: "(nat, string, nat) env" where
  "demo_env =
     \<lparr>cuda_available = True,
      config_files = (\<lambda>p. Some p),
      ckpt_files = (\<lambda>p. Some \<lparr>global_step = Some 0, state_dict = Some 7\<rparr>),
      prompt_files = (\<lambda>p. if p = ''prompts.txt'' then Some [''a'', ''b'', ''c''] else None),
      rick = Some 1,
      out_dirs = (\<lambda>p. demo_tree)\<rparr>"

text \<open>
  A folder of per-step frames as \<^verbatim>\<open>make_video.py\<close> reads it: two PNG files of height
  2 and width 3 and a text file, which \<^verbatim>\<open>cv2.imread\<close> cannot decode.
\<close>

definition demo_folder :: "string list" where
  "demo_folder = [''00001.png'', ''notes.txt'', ''00000.png'']"

definition demo_imread :: "string \<Rightarrow> nat ndarray option" where
  "demo_imread n =
     (if endswith n ''.png'' then Some \<lparr>shape = [2, 3, 3], dtype = UInt8, pixels = length n\<rparr>
      else None)"

section \<open>Properties of the prompt batcher\<close>

lemma concat_chunk_loop: "0 < k \<Longrightarrow> concat (chunk_loop xs k) = xs"
proof (induction xs k rule: chunk_loop.induct)
  case (1 it sz)
  show ?case
  proof (cases "take sz it = []")
    case True
    with 1(2) have "it = []" by simp
    with True show ?thesis by (simp add: chunk_loop.simps)
  next
    case False
    with 1 show ?thesis by (subst chunk_loop.simps) simp
  qed
qed

lemma chunk_loop_nonempty: "b \<in> set (chunk_loop xs k) \<Longrightarrow> b \<noteq> []"
proof (induction xs k rule: chunk_loop.induct)
  case (1 it sz)
  from 1(2) show ?case
    by (subst (asm) chunk_loop.simps) (use 1(1) in \<open>auto split: if_splits\<close>)
qed


lemma chunk_loop_butlast: "b \<in> set (butlast (chunk_loop xs k)) \<Longrightarrow> length b = k"
proof (induction xs k rule: chunk_loop.induct)
  case (1 it sz)
  show ?case
  proof (cases "take sz it = []")
    case True
    with 1(2) show ?thesis by (simp add: chunk_loop.simps)
  next
    case False
    note ne = this
    show ?thesis
    proof (cases "chunk_loop (drop sz it) sz = []")
      case True
      with ne 1(2) show ?thesis by (subst (asm) chunk_loop.simps) simp
    next
      case False
      then have "drop sz it \<noteq> []" by (auto simp: chunk_loop.simps)
      then have len: "length (take sz it) = sz" by simp
      from 1(2) ne False
      have "b = take sz it \<or> b \<in> set (butlast (chunk_loop (drop sz it) sz))"
        by (subst (asm) chunk_loop.simps) simp
      with len 1(1)[OF ne] show ?thesis by auto
    qed
  qed
qed

text \<open>
  C9. For every sequence and every chunk size \<open>k > 0\<close>, \<^verbatim>\<open>chunk\<close> returns batches
  whose concatenation, in order, is the sequence itself; every batch but the last has
  exactly \<open>k\<close> elements, and no batch is empty.
\<close>

theorem chunk_roundtrip:
  assumes "0 < k"
  shows "\<exists>bs. chunk xs k = Inr bs \<and> concat bs = xs
           \<and> (\<forall>b\<in>set (butlast bs). int (length b) = k)
           \<and> (\<forall>b\<in>set bs. b \<noteq> [])"
proof -
  from assms have pos: "0 < nat k" by simp
  have "chunk xs k = Inr (chunk_loop xs (nat k))"
    using assms by (simp add: chunk_def)
  moreover have "concat (chunk_loop xs (nat k)) = xs"
    using pos by (rule concat_chunk_loop)
  moreover have "\<forall>b\<in>set (butlast (chunk_loop xs (nat k))). int (length b) = k"
    using assms by (auto dest: chunk_loop_butlast)
  moreover have "\<forall>b\<in>set (chunk_loop xs (nat k)). b \<noteq> []"
    by (auto dest: chunk_loop_nonempty)
  ultimately show ?thesis by blast
qed

theorem chunk_roundtrip_witness:
  "(0::int) < 3 \<and> chunk ''abcdefg'' 3 = Inr [''abc'', ''def'', ''g'']
     \<and> (\<exists>bs. chunk ''abcdefg'' 3 = Inr bs \<and> concat bs = ''abcdefg''
           \<and> (\<forall>b\<in>set (butlast bs). int (length b) = 3)
           \<and> (\<forall>b\<in>set bs. b \<noteq> []))"
proof -
  have h: "(0::int) < 3" by simp
  have "chunk ''abcdefg'' 3 = Inr [''abc'', ''def'', ''g'']" by code_simp
  with h chunk_roundtrip [OF h, of "''abcdefg''"] show ?thesis by blast
qed







section \<open>The steps of a successful run\<close>

lemma main_steps:
  assumes "main L E opt0 = Inr r"
  obtains cfg model g1 data t es code g2 s where
    "config_files E (config (laion400m_preset opt0)) = Some cfg"
    "load_model L E cfg (ckpt (laion400m_preset opt0))
       (seed_everything L (seed (laion400m_preset opt0))) = Inr (model, g1)"
    "prompt_data (prompt_files E) (laion400m_preset opt0) = Inr data"
    "setup_dirs (out_dirs E (outdir (laion400m_preset opt0))) = Inr t"
    "listdir ''samples'' t = Inr es"
    "make_start_code L (laion400m_preset opt0) (best_device E) g1 = Inr (code, g2)"
    "run_iter (batch_step L (rick E) (laion400m_preset opt0) model
                 (define_sampler (laion400m_preset opt0) model) code)
        data (nat (n_iter (laion400m_preset opt0)))
        \<lparr>out = t, saved = [], base_count = int (length es),
         grid_count = int (length (listdir_root t)) - 1,
         processList = [], process2List = [], all_samples = [],
         rng = g2, sampler_calls = []\<rparr> = Inr s"
    "save_grid (laion400m_preset opt0) s = Inr (final r)"
    "the_model r = model"
    "the_sampler r = define_sampler (laion400m_preset opt0) model"
    "start_code r = code"
  using assms unfolding main_def Let_def
  by (auto split: option.splits sum.splits prod.splits)

lemma laion400m_preset_keeps [simp]:
  "dpm_solver (laion400m_preset opt) = dpm_solver opt"
  "plms (laion400m_preset opt) = plms opt"
  "skip_grid (laion400m_preset opt) = skip_grid opt"
  "skip_save (laion400m_preset opt) = skip_save opt"
  "fixed_code (laion400m_preset opt) = fixed_code opt"
  "n_iter (laion400m_preset opt) = n_iter opt"
  "n_samples (laion400m_preset opt) = n_samples opt"
  "seed (laion400m_preset opt) = seed opt"
  "opt_C (laion400m_preset opt) = opt_C opt"
  "opt_H (laion400m_preset opt) = opt_H opt"
  "opt_W (laion400m_preset opt) = opt_W opt"
  "opt_f (laion400m_preset opt) = opt_f opt"
  by (simp_all add: laion400m_preset_def)

section \<open>The sampler of a run\<close>

text \<open>
  C5. In every run that gets as far as the sampler, the sampler is decided by the two
  flags alone, in a fixed priority: the DPM-solver strategy when \<^verbatim>\<open>--dpm_solver\<close> is
  set, whatever \<^verbatim>\<open>--plms\<close> is; else the PLMS strategy when \<^verbatim>\<open>--plms\<close> is set; else
  the default DDIM strategy.
\<close>

theorem sampler_priority:
  assumes "main L E opt = Inr r"
  shows "the_sampler r =
           (case (dpm_solver opt, plms opt) of
              (True, True) \<Rightarrow> DPMSolverSampler (the_model r)
            | (True, False) \<Rightarrow> DPMSolverSampler (the_model r)
            | (False, True) \<Rightarrow> PLMSSampler (the_model r)
            | (False, False) \<Rightarrow> DDIMSampler (the_model r))"
proof -
  from assms have "the_sampler r = define_sampler (laion400m_preset opt) (the_model r)"
    by (rule main_steps) simp
  then show ?thesis by (simp add: define_sampler_def)
qed

theorem sampler_priority_witness:
  "(case main demo_lib demo_env (default_opts\<lparr>dpm_solver := True, plms := True\<rparr>) of
      Inl e \<Rightarrow> False
    | Inr r \<Rightarrow> the_sampler r = DPMSolverSampler (the_model r))
   \<and> (case main demo_lib demo_env (default_opts\<lparr>plms := True\<rparr>) of
      Inl e \<Rightarrow> False
    | Inr r \<Rightarrow> the_sampler r = PLMSSampler (the_model r))
   \<and> (case main demo_lib demo_env default_opts of
      Inl e \<Rightarrow> False
    | Inr r \<Rightarrow> the_sampler r = DDIMSampler (the_model r))"
proof -
  have a: "\<not> isl (main demo_lib demo_env (default_opts\<lparr>dpm_solver := True, plms := True\<rparr>))"
    by code_simp
  have b: "\<not> isl (main demo_lib demo_env (default_opts\<lparr>plms := True\<rparr>))"
    by code_simp
  have c: "\<not> isl (main demo_lib demo_env default_opts)"
    by code_simp
  from a obtain ra
    where ra: "main demo_lib demo_env (default_opts\<lparr>dpm_solver := True, plms := True\<rparr>) = Inr ra"
    by (cases "main demo_lib demo_env (default_opts\<lparr>dpm_solver := True, plms := True\<rparr>)") auto
  from b obtain rb
    where rb: "main demo_lib demo_env (default_opts\<lparr>plms := True\<rparr>) = Inr rb"
    by (cases "main demo_lib demo_env (default_opts\<lparr>plms := True\<rparr>)") auto
  from c obtain rc
    where rc: "main demo_lib demo_env default_opts = Inr rc"
    by (cases "main demo_lib demo_env default_opts") auto
  have fa: "the_sampler ra = DPMSolverSampler (the_model ra)"
    using sampler_priority [OF ra] by (simp add: default_opts_def)
  have fb: "the_sampler rb = PLMSSampler (the_model rb)"
    using sampler_priority [OF rb] by (simp add: default_opts_def)
  have fc: "the_sampler rc = DDIMSampler (the_model rc)"
    using sampler_priority [OF rc] by (simp add: default_opts_def)
  show ?thesis
    by (simp add: ra rb rc fa fb fc)
qed

section \<open>The model loader and the device\<close>

lemma load_model_needs_cuda:
  "\<not> cuda_available E \<Longrightarrow> load_model L E cfg path g \<noteq> Inr x"
  by (auto simp: load_model_def load_model_from_config_def Let_def
           split: option.splits prod.splits sum.splits)

lemma load_model_on_cuda:
  "load_model L E cfg path g = Inr (m, g') \<Longrightarrow> cuda_available E \<and> on_device m = Cuda"
  by (auto simp: load_model_def load_model_from_config_def best_device_def Let_def
           split: option.splits prod.splits sum.splits if_splits)

text \<open>
  C4. On a machine without CUDA, with the config and the checkpoint readable, the model
  is not moved to the CPU: \<^verbatim>\<open>load_model_from_config\<close> raises at \<^verbatim>\<open>model.cuda()\<close>,
  before \<^verbatim>\<open>main\<close> reaches its choice of device, and the run ends there.
\<close>

theorem load_model_without_cuda:
  "cuda_available (demo_env\<lparr>cuda_available := False\<rparr>) = False
   \<and> best_device (demo_env\<lparr>cuda_available := False\<rparr>) = Cpu
   \<and> load_model demo_lib (demo_env\<lparr>cuda_available := False\<rparr>)
        (config default_opts) (ckpt default_opts) (seed_everything demo_lib 42)
      = Inl RuntimeError
   \<and> main demo_lib (demo_env\<lparr>cuda_available := False\<rparr>) default_opts = Inl RuntimeError"
  by code_simp

section \<open>The video assembler\<close>

lemma write_frames_all:
  assumes "\<forall>n\<in>set images. imread n \<noteq> None"
  shows "write_frames imread images v
           = Inr (v\<lparr>frames := frames v @ map (\<lambda>n. the (imread n)) images\<rparr>)"
  using assms by (induction images arbitrary: v) auto

text \<open>
  C8. For a folder whose \<open>K\<close> PNG files (the names ending in \<^verbatim>\<open>.png\<close>, in listing
  order) all decode, the first with height \<open>h\<close> and width \<open>w\<close>, the writer is opened at
  5 frames per second with frame size \<open>(w, h)\<close> and is handed exactly those \<open>K\<close> images,
  in listing order. For a folder with no PNG file the script fails with
  \<^verbatim>\<open>IndexError\<close>, whatever else the folder holds.
\<close>

theorem write_video_frames:
  "(filter (\<lambda>n. endswith n ''.png'') listing = first # rest
      \<and> (\<forall>n\<in>set (first # rest). imread n \<noteq> None)
      \<and> shape (the (imread first)) = [h, w, c]
    \<longrightarrow> (\<exists>v. write_video name listing imread = Inr v
              \<and> fps v = 5 \<and> frame_size v = (w, h) \<and> video_name v = name
              \<and> frames v = map (\<lambda>n. the (imread n)) (first # rest)
              \<and> length (frames v) = length (filter (\<lambda>n. endswith n ''.png'') listing)))
   \<and> (filter (\<lambda>n. endswith n ''.png'') listing = []
    \<longrightarrow> write_video name listing imread = Inl IndexError)"
proof (intro conjI impI)
  assume a: "filter (\<lambda>n. endswith n ''.png'') listing = first # rest
      \<and> (\<forall>n\<in>set (first # rest). imread n \<noteq> None)
      \<and> shape (the (imread first)) = [h, w, c]"
  then obtain fr where fr: "imread first = Some fr" "shape fr = [h, w, c]" by auto
  from a have all: "\<forall>n\<in>set (first # rest). imread n \<noteq> None" by simp
  have "write_video name listing imread
          = write_frames imread (first # rest)
              \<lparr>video_name = name, fourcc = 0, fps = 5, frame_size = (w, h), frames = []\<rparr>"
    using a fr by (simp add: write_video_def)
  also have "\<dots> = Inr \<lparr>video_name = name, fourcc = 0, fps = 5, frame_size = (w, h),
                       frames = map (\<lambda>n. the (imread n)) (first # rest)\<rparr>"
    by (subst write_frames_all [OF all]) simp
  finally show "\<exists>v. write_video name listing imread = Inr v
              \<and> fps v = 5 \<and> frame_size v = (w, h) \<and> video_name v = name
              \<and> frames v = map (\<lambda>n. the (imread n)) (first # rest)
              \<and> length (frames v) = length (filter (\<lambda>n. endswith n ''.png'') listing)"
    using a by simp
next
  assume "filter (\<lambda>n. endswith n ''.png'') listing = []"
  then show "write_video name listing imread = Inl IndexError"
    by (simp add: write_video_def)
qed

theorem write_video_frames_witness:
  "filter (\<lambda>n. endswith n ''.png'') demo_folder = [''00001.png'', ''00000.png'']
   \<and> demo_imread ''00001.png'' \<noteq> None \<and> demo_imread ''00000.png'' \<noteq> None
   \<and> shape (the (demo_imread ''00001.png'')) = [2, 3, 3]
   \<and> (\<exists>v. write_video ''video1.avi'' demo_folder demo_imread = Inr v
          \<and> fps v = 5 \<and> frame_size v = (3, 2) \<and> length (frames v) = 2
          \<and> frames v = [the (demo_imread ''00001.png''), the (demo_imread ''00000.png'')])
   \<and> filter (\<lambda>n. endswith n ''.png'') [''notes.txt''] = []
   \<and> write_video ''video1.avi'' [''notes.txt''] demo_imread = Inl IndexError"
proof -
  have a: "filter (\<lambda>n. endswith n ''.png'') demo_folder = [''00001.png'', ''00000.png'']"
    by code_simp
  have b: "demo_imread ''00001.png'' \<noteq> None" "demo_imread ''00000.png'' \<noteq> None"
    by code_simp+
  have c: "shape (the (demo_imread ''00001.png'')) = [2, 3, 3]"
    by code_simp
  have d: "filter (\<lambda>n. endswith n ''.png'') [''notes.txt''] = []"
    by code_simp
  from a b c
    write_video_frames [of demo_folder "''00001.png''" "[''00000.png'']" demo_imread 2 3 3
      "''video1.avi''"]
  have e: "\<exists>v. write_video ''video1.avi'' demo_folder demo_imread = Inr v
          \<and> fps v = 5 \<and> frame_size v = (3, 2) \<and> length (frames v) = 2
          \<and> frames v = [the (demo_imread ''00001.png''), the (demo_imread ''00000.png'')]"
    by auto
  from d write_video_frames [of "[''notes.txt'']" _ _ demo_imread _ _ _ "''video1.avi''"]
  have f: "write_video ''video1.avi'' [''notes.txt''] demo_imread = Inl IndexError"
    by blast
  from a b c d e f show ?thesis by blast
qed

section \<open>Properties of the safety check\<close>

lemma load_replacement_cases:
  "load_replacement rs asset x = x
   \<or> (\<exists>a. asset = Some a \<and> 2 \<le> length (shape x) \<and>
        shape x = [shape x ! 0, shape x ! 1, 3] \<and>
        load_replacement rs asset x
          = \<lparr>shape = shape x, dtype = dtype x,
             pixels = rs a (shape x ! 1) (shape x ! 0) (dtype x)\<rparr>)"
  by (auto simp: load_replacement_def try_load_replacement_def Let_def
           split: option.splits if_splits)

lemma load_replacement_shape [simp]: "shape (load_replacement rs asset x) = shape x"
  using load_replacement_cases [of rs asset x] by auto

lemma load_replacement_dtype [simp]: "dtype (load_replacement rs asset x) = dtype x"
  using load_replacement_cases [of rs asset x] by auto

lemma load_replacement_failed:
  "try_load_replacement rs asset x = Inl e \<Longrightarrow> load_replacement rs asset x = x"
  by (simp add: load_replacement_def)

lemma load_replacement_rgb:
  assumes "shape x = [h, w, 3]" and "0 < h" and "0 < w"
  shows "load_replacement rs (Some a) x
           = \<lparr>shape = [h, w, 3], dtype = dtype x, pixels = rs a w h (dtype x)\<rparr>"
  using assms by (simp add: load_replacement_def try_load_replacement_def Let_def)

lemma fold_replace_length [simp]:
  "length (fold (replace_flagged rs asset fl) idx xs) = length xs"
  by (induction idx arbitrary: xs) (auto simp: replace_flagged_def)

lemma fold_replace_nth:
  assumes "distinct idx" and "i < length xs"
  shows "fold (replace_flagged rs asset fl) idx xs ! i
           = (if i \<in> set idx \<and> fl ! i then load_replacement rs asset (xs ! i) else xs ! i)"
  using assms
proof (induction idx arbitrary: xs)
  case Nil
  then show ?case by simp
next
  case (Cons j idx)
  let ?ys = "replace_flagged rs asset fl j xs"
  have len: "length ?ys = length xs" by (simp add: replace_flagged_def)
  from Cons.prems have d: "distinct idx" and j: "j \<notin> set idx" by auto
  have "fold (replace_flagged rs asset fl) (j # idx) xs ! i
          = fold (replace_flagged rs asset fl) idx ?ys ! i" by simp
  also have "\<dots> = (if i \<in> set idx \<and> fl ! i then load_replacement rs asset (?ys ! i) else ?ys ! i)"
    using Cons.IH [OF d, of ?ys] Cons.prems(2) len by simp
  also have "\<dots> = (if i \<in> set (j # idx) \<and> fl ! i then load_replacement rs asset (xs ! i)
                     else xs ! i)"
  proof (cases "i = j")
    case True
    with j Cons.prems(2) show ?thesis by (simp add: replace_flagged_def)
  next
    case False
    then have "?ys ! i = xs ! i" by (simp add: replace_flagged_def)
    with False show ?thesis by simp
  qed
  finally show ?case .
qed

lemma check_safety_result:
  assumes "safety_checker L x_image = (xs, fl)"
  shows "check_safety L asset x_image
           = (if length xs \<noteq> length fl then Inl AssertionError
              else Inr (fold (replace_flagged (resize_asset L) asset fl) [0..<length fl] xs, fl))"
  using assms by (simp add: check_safety_def)

lemma check_safety_nth:
  assumes "check_safety L asset x_image = Inr (ys, flags)"
    and "safety_checker L x_image = (xs, fl)"
    and "i < length xs"
  shows "flags = fl \<and> length ys = length xs \<and> length fl = length xs
       \<and> ys ! i = (if fl ! i then load_replacement (resize_asset L) asset (xs ! i) else xs ! i)"
proof -
  from assms(1) check_safety_result [OF assms(2), of asset]
  have len: "length xs = length fl"
    and ys: "ys = fold (replace_flagged (resize_asset L) asset fl) [0..<length fl] xs"
    and fl: "flags = fl"
    by (auto split: if_splits)
  from assms(3) len have "i \<in> set [0..<length fl]" by simp
  with fold_replace_nth [of "[0..<length fl]" i xs "resize_asset L" asset fl] assms(3)
  have "ys ! i = (if fl ! i then load_replacement (resize_asset L) asset (xs ! i) else xs ! i)"
    unfolding ys by simp
  with len ys fl show ?thesis by simp
qed

lemma check_safety_length:
  assumes "check_safety L asset x_image = Inr (ys, flags)"
  shows "length ys = length (fst (safety_checker L x_image))"
  using assms by (auto simp: check_safety_def split: prod.splits if_splits)

text \<open>
  C10. \<^verbatim>\<open>load_replacement\<close> returns an array for every array it is given (the
  \<^verbatim>\<open>except\<close> clause turns every exception of its body into the return of \<open>x\<close>), and
  the array has the shape and the dtype of \<open>x\<close>: it is \<open>x\<close> itself, or the placeholder
  resized to the width and height of \<open>x\<close>. So the replacement loop of
  \<^verbatim>\<open>check_safety\<close> keeps the number of images of the checked batch and the shape and
  dtype of each.
\<close>

theorem load_replacement_same_shape:
  "shape (load_replacement rs asset x) = shape x
   \<and> dtype (load_replacement rs asset x) = dtype x
   \<and> (load_replacement rs asset x = x
      \<or> (\<exists>a. asset = Some a \<and>
            load_replacement rs asset x
              = \<lparr>shape = shape x, dtype = dtype x,
                 pixels = rs a (shape x ! 1) (shape x ! 0) (dtype x)\<rparr>))
   \<and> (\<forall>e. try_load_replacement rs asset x = Inl e \<longrightarrow> load_replacement rs asset x = x)
   \<and> (check_safety L asset x_image = Inr (ys, flags)
        \<longrightarrow> length ys = length (fst (safety_checker L x_image))
          \<and> map shape ys = map shape (fst (safety_checker L x_image))
          \<and> map dtype ys = map dtype (fst (safety_checker L x_image)))"
proof (intro conjI impI allI)
  show "load_replacement rs asset x = x
      \<or> (\<exists>a. asset = Some a \<and>
            load_replacement rs asset x
              = \<lparr>shape = shape x, dtype = dtype x,
                 pixels = rs a (shape x ! 1) (shape x ! 0) (dtype x)\<rparr>)"
    using load_replacement_cases [of rs asset x] by blast
next
  fix e assume "try_load_replacement rs asset x = Inl e"
  then show "load_replacement rs asset x = x" by (rule load_replacement_failed)
next
  assume a: "check_safety L asset x_image = Inr (ys, flags)"
  obtain xs fl where c: "safety_checker L x_image = (xs, fl)"
    by (cases "safety_checker L x_image")
  have len: "length ys = length xs"
    using check_safety_length [OF a] c by simp
  have nth: "\<And>i. i < length xs \<Longrightarrow>
      ys ! i = (if fl ! i then load_replacement (resize_asset L) asset (xs ! i) else xs ! i)"
    using check_safety_nth [OF a c] by blast
  show "length ys = length (fst (safety_checker L x_image))"
    using len c by simp
  show "map shape ys = map shape (fst (safety_checker L x_image))"
    using len nth c by (auto intro!: nth_equalityI)
  show "map dtype ys = map dtype (fst (safety_checker L x_image))"
    using len nth c by (auto intro!: nth_equalityI)
qed simp_all

theorem load_replacement_same_shape_witness:
  "try_load_replacement (resize_asset demo_lib) None
       \<lparr>shape = [2, 2, 3], dtype = Float32, pixels = 0\<rparr> = Inl FileNotFoundError
   \<and> load_replacement (resize_asset demo_lib) None
       \<lparr>shape = [2, 2, 3], dtype = Float32, pixels = 0\<rparr>
     = \<lparr>shape = [2, 2, 3], dtype = Float32, pixels = 0\<rparr>
   \<and> load_replacement (resize_asset demo_lib) (Some 1)
       \<lparr>shape = [2, 2, 3], dtype = Float32, pixels = 0\<rparr>
     = \<lparr>shape = [2, 2, 3], dtype = Float32, pixels = 5\<rparr>
   \<and> check_safety demo_lib (Some 1)
       [\<lparr>shape = [2, 2, 3], dtype = Float32, pixels = 0\<rparr>,
        \<lparr>shape = [4, 2, 3], dtype = Float32, pixels = 9\<rparr>]
     = Inr ([\<lparr>shape = [2, 2, 3], dtype = Float32, pixels = 5\<rparr>,
             \<lparr>shape = [4, 2, 3], dtype = Float32, pixels = 9\<rparr>], [True, False])
   \<and> map shape [\<lparr>shape = [2, 2, 3], dtype = Float32, pixels = 5::nat\<rparr>,
                 \<lparr>shape = [4, 2, 3], dtype = Float32, pixels = 9\<rparr>]
     = map shape (fst (safety_checker demo_lib
        [\<lparr>shape = [2, 2, 3], dtype = Float32, pixels = 0\<rparr>,
         \<lparr>shape = [4, 2, 3], dtype = Float32, pixels = 9\<rparr>]))"
proof -
  let ?a = "\<lparr>shape = [2, 2, 3], dtype = Float32, pixels = 0::nat\<rparr>"
  let ?b = "\<lparr>shape = [4, 2, 3], dtype = Float32, pixels = 9::nat\<rparr>"
  let ?a' = "\<lparr>shape = [2, 2, 3], dtype = Float32, pixels = 5::nat\<rparr>"
  have t: "try_load_replacement (resize_asset demo_lib) None ?a = Inl FileNotFoundError"
    by code_simp
  have s: "load_replacement (resize_asset demo_lib) (Some 1) ?a = ?a'"
    by code_simp
  have c: "check_safety demo_lib (Some 1) [?a, ?b] = Inr ([?a', ?b], [True, False])"
    by code_simp
  from t load_replacement_same_shape [of "resize_asset demo_lib" None ?a]
  have n: "load_replacement (resize_asset demo_lib) None ?a = ?a" by blast
  from c load_replacement_same_shape
    [of "resize_asset demo_lib" "Some 1" ?a demo_lib "[?a, ?b]" "[?a', ?b]" "[True, False]"]
  have m: "map shape [?a', ?b] = map shape (fst (safety_checker demo_lib [?a, ?b]))"
    by blast
  from t n s c m show ?thesis by blast
qed

text \<open>
  C2. When the classifier hands back as many flags as images, \<^verbatim>\<open>check_safety\<close>
  returns without an error, with the classifier's flags and as many images. At every
  index: an image that is not flagged is the one the classifier handed back; a flagged
  RGB image of height \<open>h\<close> and width \<open>w\<close> is, when the placeholder can be opened, the
  placeholder resized to width \<open>w\<close> and height \<open>h\<close>, in the image's dtype; and whenever
  the body of \<^verbatim>\<open>load_replacement\<close> raises (the placeholder missing among the
  causes), the image is left as the classifier handed it back.
\<close>

theorem check_safety_replaces:
  assumes "safety_checker L x_image = (xs, fl)"
    and "length xs = length fl"
    and "i < length xs"
  shows "\<exists>ys. check_safety L asset x_image = Inr (ys, fl) \<and> length ys = length xs
     \<and> (\<not> fl ! i \<longrightarrow> ys ! i = xs ! i)
     \<and> (fl ! i \<longrightarrow>
          (\<forall>a h w. asset = Some a \<and> shape (xs ! i) = [h, w, 3] \<and> 0 < h \<and> 0 < w
             \<longrightarrow> ys ! i = \<lparr>shape = [h, w, 3], dtype = dtype (xs ! i),
                            pixels = resize_asset L a w h (dtype (xs ! i))\<rparr>))
     \<and> (\<forall>e. try_load_replacement (resize_asset L) asset (xs ! i) = Inl e \<longrightarrow> ys ! i = xs ! i)
     \<and> (asset = None \<longrightarrow> ys ! i = xs ! i)"
proof -
  let ?ys = "fold (replace_flagged (resize_asset L) asset fl) [0..<length fl] xs"
  have r: "check_safety L asset x_image = Inr (?ys, fl)"
    using check_safety_result [OF assms(1), of asset] assms(2) by simp
  from check_safety_nth [OF r assms(1) assms(3)]
  have len: "length ?ys = length xs"
    and nth: "?ys ! i = (if fl ! i then load_replacement (resize_asset L) asset (xs ! i)
                         else xs ! i)"
    by blast+
  have none: "asset = None \<Longrightarrow> load_replacement (resize_asset L) asset (xs ! i) = xs ! i"
    by (simp add: load_replacement_def try_load_replacement_def)
  show ?thesis
  proof (intro exI [of _ ?ys] conjI impI allI)
    show "check_safety L asset x_image = Inr (?ys, fl)" by (rule r)
    show "length ?ys = length xs" by (rule len)
  next
    assume "\<not> fl ! i" then show "?ys ! i = xs ! i" using nth by simp
  next
    fix a h w
    assume "fl ! i" and "asset = Some a \<and> shape (xs ! i) = [h, w, 3] \<and> 0 < h \<and> 0 < w"
    then show "?ys ! i = \<lparr>shape = [h, w, 3], dtype = dtype (xs ! i),
                            pixels = resize_asset L a w h (dtype (xs ! i))\<rparr>"
      using nth by (simp add: load_replacement_rgb)
  next
    fix e assume "try_load_replacement (resize_asset L) asset (xs ! i) = Inl e"
    then show "?ys ! i = xs ! i" using nth by (simp add: load_replacement_failed)
  next
    assume "asset = None" then show "?ys ! i = xs ! i" using nth none by simp
  qed
qed

theorem check_safety_replaces_witness:
  "safety_checker demo_lib
       [\<lparr>shape = [2, 2, 3], dtype = Float32, pixels = 0\<rparr>,
        \<lparr>shape = [4, 2, 3], dtype = Float32, pixels = 9\<rparr>]
     = ([\<lparr>shape = [2, 2, 3], dtype = Float32, pixels = 0\<rparr>,
         \<lparr>shape = [4, 2, 3], dtype = Float32, pixels = 9\<rparr>], [True, False])
   \<and> check_safety demo_lib (Some 1)
       [\<lparr>shape = [2, 2, 3], dtype = Float32, pixels = 0\<rparr>,
        \<lparr>shape = [4, 2, 3], dtype = Float32, pixels = 9\<rparr>]
     = Inr ([\<lparr>shape = [2, 2, 3], dtype = Float32, pixels = 1 + 2 + 2\<rparr>,
             \<lparr>shape = [4, 2, 3], dtype = Float32, pixels = 9\<rparr>], [True, False])
   \<and> check_safety demo_lib None
       [\<lparr>shape = [2, 2, 3], dtype = Float32, pixels = 0\<rparr>,
        \<lparr>shape = [4, 2, 3], dtype = Float32, pixels = 9\<rparr>]
     = Inr ([\<lparr>shape = [2, 2, 3], dtype = Float32, pixels = 0\<rparr>,
             \<lparr>shape = [4, 2, 3], dtype = Float32, pixels = 9\<rparr>], [True, False])"
proof -
  let ?a = "\<lparr>shape = [2, 2, 3], dtype = Float32, pixels = 0::nat\<rparr>"
  let ?b = "\<lparr>shape = [4, 2, 3], dtype = Float32, pixels = 9::nat\<rparr>"
  have c: "safety_checker demo_lib [?a, ?b] = ([?a, ?b], [True, False])"
    by code_simp
  have l: "length [?a, ?b] = length [True, False]" by simp
  have i0: "0 < length [?a, ?b]" and i1: "1 < length [?a, ?b]" by simp_all
  from check_safety_replaces [OF c l i0, of "Some 1"]
  obtain ys where ys: "check_safety demo_lib (Some 1) [?a, ?b] = Inr (ys, [True, False])"
    and len: "length ys = 2"
    and y0: "ys ! 0 = \<lparr>shape = [2, 2, 3], dtype = Float32,
                        pixels = resize_asset demo_lib 1 2 2 Float32\<rparr>"
    by auto
  from check_safety_replaces [OF c l i1, of "Some 1"] ys
  have y1: "ys ! 1 = ?b" by auto
  have r: "resize_asset demo_lib 1 2 2 Float32 = 1 + 2 + 2" by code_simp
  from len y0 y1 r
  have "ys = [\<lparr>shape = [2, 2, 3], dtype = Float32, pixels = 1 + 2 + 2\<rparr>, ?b]"
    by (cases ys; cases "tl ys") auto
  with ys have s: "check_safety demo_lib (Some 1) [?a, ?b]
     = Inr ([\<lparr>shape = [2, 2, 3], dtype = Float32, pixels = 1 + 2 + 2\<rparr>, ?b], [True, False])"
    by simp
  from check_safety_replaces [OF c l i0, of None]
  obtain zs where zs: "check_safety demo_lib None [?a, ?b] = Inr (zs, [True, False])"
    and zlen: "length zs = 2" and z0: "zs ! 0 = ?a"
    by auto
  from check_safety_replaces [OF c l i1, of None] zs
  have z1: "zs ! 1 = ?b" by auto
  from zlen z0 z1 have "zs = [?a, ?b]"
    by (cases zs; cases "tl zs") auto
  with zs have n: "check_safety demo_lib None [?a, ?b] = Inr ([?a, ?b], [True, False])"
    by simp
  from c s n show ?thesis by blast
qed

section \<open>File names are injective in the counter\<close>








section \<open>What each save site does to the run\<close>

lemma saved_in_append [simp]: "saved_in sub (xs @ ys) = saved_in sub xs @ saved_in sub ys"
  by (simp add: saved_in_def)

lemma saved_in_Nil [simp]: "saved_in sub [] = []"
  by (simp add: saved_in_def)

lemma saved_in_same [simp]: "saved_in sub (map (\<lambda>i. (sub, f i)) is) = map f is"
  by (induction "is") (simp_all add: saved_in_def)

lemma saved_in_other [simp]: "sub' \<noteq> sub \<Longrightarrow> saved_in sub (map (\<lambda>i. (sub', f i)) is) = []"
  by (induction "is") (simp_all add: saved_in_def)

lemma saved_in_single [simp]:
  "saved_in sub [(sub', n)] = (if sub' = sub then [n] else [])"
  by (simp add: saved_in_def)

lemma save_each_effect:
  assumes "save_each sub xs c s = Inr (c', s')"
  shows "c' = c + int (length xs) \<and>
         (\<exists>t. s' = s\<lparr>out := t,
                saved := saved s @ map (\<lambda>i. (sub, sample_name (c + int i))) [0..<length xs]\<rparr>)"
  using assms
proof (induction xs arbitrary: c s)
  case Nil
  then have "c' = c + int (length [])"
    and "s' = s\<lparr>out := out s,
              saved := saved s @ map (\<lambda>i. (sub, sample_name (c + int i))) [0..<length []]\<rparr>"
    by simp_all
  then show ?case by blast
next
  case (Cons x xs)
  from Cons.prems obtain t where t: "save_in sub (sample_name c) (out s) = Inr t"
    and rest: "save_each sub xs (c + 1)
                 (s\<lparr>out := t, saved := saved s @ [(sub, sample_name c)]\<rparr>) = Inr (c', s')"
    by (auto split: sum.splits)
  from Cons.IH [OF rest] obtain t'
    where c': "c' = c + 1 + int (length xs)"
    and s': "s' = s\<lparr>out := t',
                saved := (saved s @ [(sub, sample_name c)]) @
                  map (\<lambda>i. (sub, sample_name (c + 1 + int i))) [0..<length xs]\<rparr>"
    by auto
  have "map (\<lambda>i. (sub, sample_name (c + int i))) [0..<length (x # xs)]
          = (sub, sample_name c) # map (\<lambda>i. (sub, sample_name (c + 1 + int i))) [0..<length xs]"
    by (simp add: map_upt_Suc add.commute add.left_commute del: upt_Suc)
  with c' s' show ?case by auto
qed

lemma map_upt_add:
  "map f [0..<a + b] = map f [0..<a] @ map (\<lambda>i. f (a + i)) [0..<b]"
  by (induction b) simp_all

lemma save_steps_effect:
  assumes "save_steps dec m sub ls c s = Inr (c', s')"
  shows "\<exists>k t. c' = c + int k \<and>
           s' = s\<lparr>out := t,
                  saved := saved s @ map (\<lambda>i. (sub, sample_name (c + int i))) [0..<k]\<rparr>"
  using assms
proof (induction ls arbitrary: c s)
  case Nil
  then have "c' = c + int 0 \<and>
      s' = s\<lparr>out := out s, saved := saved s @ map (\<lambda>i. (sub, sample_name (c + int i))) [0..<0]\<rparr>"
    by simp
  then show ?case by blast
next
  case (Cons l ls)
  from Cons.prems obtain c1 s1 where first: "save_each sub (dec m l) c s = Inr (c1, s1)"
    and rest: "save_steps dec m sub ls c1 s1 = Inr (c', s')"
    by (auto split: sum.splits)
  let ?k1 = "length (dec m l)"
  from save_each_effect [OF first] obtain t1
    where c1: "c1 = c + int ?k1"
    and s1: "s1 = s\<lparr>out := t1,
                saved := saved s @ map (\<lambda>i. (sub, sample_name (c + int i))) [0..<?k1]\<rparr>"
    by auto
  from Cons.IH [OF rest] obtain k2 t2 where c': "c' = c1 + int k2"
    and s': "s' = s1\<lparr>out := t2,
                saved := saved s1 @ map (\<lambda>i. (sub, sample_name (c1 + int i))) [0..<k2]\<rparr>"
    by blast
  have "s' = s\<lparr>out := t2,
                saved := saved s @ map (\<lambda>i. (sub, sample_name (c + int i))) [0..<?k1 + k2]\<rparr>"
    by (subst s', subst s1, subst s1)
       (simp add: c1 map_upt_add [of _ ?k1 k2] add.assoc)
  moreover have "c' = c + int (?k1 + k2)" using c' c1 by simp
  ultimately show ?case by blast
qed

lemma saveImages_effect:
  assumes "saveImages L m s = Inr s'"
  shows "\<exists>k2 k1 t.
           s' = s\<lparr>out := t,
                  saved := saved s
                    @ map (\<lambda>i. (''process2'', sample_name (int i))) [0..<k2]
                    @ map (\<lambda>i. (''process'', sample_name (int i))) [0..<k1],
                  processList := [], process2List := []\<rparr>"
proof -
  from assms obtain c2 s2 c1 s1
    where a: "save_steps (decode_first_stage L) m ''process2'' (process2List s) 0 s = Inr (c2, s2)"
      and b: "save_steps (decode_first_stage L) m ''process'' (processList s2) 0 s2 = Inr (c1, s1)"
      and c: "s' = s1\<lparr>processList := [], process2List := []\<rparr>"
    by (auto simp: saveImages_def split: sum.splits)
  from save_steps_effect [OF a] obtain k2 t2
    where s2: "s2 = s\<lparr>out := t2,
                saved := saved s @ map (\<lambda>i. (''process2'', sample_name (0 + int i))) [0..<k2]\<rparr>"
    by blast
  from save_steps_effect [OF b] obtain k1 t1
    where s1: "s1 = s2\<lparr>out := t1,
                saved := saved s2 @ map (\<lambda>i. (''process'', sample_name (0 + int i))) [0..<k1]\<rparr>"
    by blast
  have "s' = s\<lparr>out := t1,
                  saved := saved s
                    @ map (\<lambda>i. (''process2'', sample_name (int i))) [0..<k2]
                    @ map (\<lambda>i. (''process'', sample_name (int i))) [0..<k1],
                  processList := [], process2List := []\<rparr>"
    by (subst c, subst s1, subst s2, subst s2) simp
  then show ?thesis by blast
qed

lemma batch_step_effect:
  assumes "batch_step L asset opt model sampler code prompts s = Inr s'"
  shows "\<exists>args lat steps g' x_checked flags k2 k1.
      arg_x_T args = code \<and> arg_batch_size args = n_samples opt
    \<and> sample L sampler args (rng s) = ((lat, steps), g')
    \<and> check_safety L asset (decode_first_stage L model lat) = Inr (x_checked, flags)
    \<and> sampler_calls s' = sampler_calls s @ [args]
    \<and> grid_count s' = grid_count s
    \<and> base_count s' = (if skip_save opt then base_count s
                        else base_count s + int (length x_checked))
    \<and> saved s' = saved s
         @ map (\<lambda>i. (''process2'', sample_name (int i))) [0..<k2]
         @ map (\<lambda>i. (''process'', sample_name (int i))) [0..<k1]
         @ (if skip_save opt then []
            else map (\<lambda>i. (''samples'', sample_name (base_count s + int i)))
                   [0..<length x_checked])"
proof -
  let ?uc = "if scale opt \<noteq> 1
             then Some (get_learned_conditioning L model (replicate (nat (n_samples opt)) []))
             else None"
  let ?args = "\<lparr>arg_S = ddim_steps opt,
                arg_conditioning = get_learned_conditioning L model prompts,
                arg_batch_size = n_samples opt,
                arg_shape = [opt_C opt, opt_H opt div opt_f opt, opt_W opt div opt_f opt],
                arg_unconditional_guidance_scale = scale opt,
                arg_unconditional_conditioning = ?uc,
                arg_eta = ddim_eta opt,
                arg_x_T = code\<rparr>"
  obtain lat steps g' where smp: "sample L sampler ?args (rng s) = ((lat, steps), g')"
    by (cases "sample L sampler ?args (rng s)") auto
  let ?s0 = "s\<lparr>processList := processList s @ map fst steps,
                process2List := process2List s @ map snd steps,
                rng := g',
                sampler_calls := sampler_calls s @ [?args]\<rparr>"
  from assms smp obtain s1 xc fl n s2
    where si: "saveImages L model ?s0 = Inr s1"
      and cs: "check_safety L asset (decode_first_stage L model lat) = Inr (xc, fl)"
      and sv: "(if skip_save opt then Inr (base_count s1, s1)
                else save_each ''samples'' xc (base_count s1) s1) = Inr (n, s2)"
      and s': "s' = s2\<lparr>base_count := n,
                       all_samples := (if skip_grid opt then all_samples s2
                                       else all_samples s2 @ [xc])\<rparr>"
    unfolding batch_step_def Let_def
    by (auto split: if_splits sum.splits prod.splits)
  from saveImages_effect [OF si] obtain k2 k1 t1
    where s1: "s1 = ?s0\<lparr>out := t1,
                  saved := saved ?s0
                    @ map (\<lambda>i. (''process2'', sample_name (int i))) [0..<k2]
                    @ map (\<lambda>i. (''process'', sample_name (int i))) [0..<k1],
                  processList := [], process2List := []\<rparr>"
    by blast
  have s1_saved: "saved s1 = saved s
                    @ map (\<lambda>i. (''process2'', sample_name (int i))) [0..<k2]
                    @ map (\<lambda>i. (''process'', sample_name (int i))) [0..<k1]"
    and s1_base: "base_count s1 = base_count s"
    and s1_grid: "grid_count s1 = grid_count s"
    and s1_calls: "sampler_calls s1 = sampler_calls s @ [?args]"
    by (subst s1, simp)+
  have fin: "n = (if skip_save opt then base_count s else base_count s + int (length xc))
      \<and> saved s2 = saved s1 @ (if skip_save opt then []
            else map (\<lambda>i. (''samples'', sample_name (base_count s + int i))) [0..<length xc])
      \<and> grid_count s2 = grid_count s1 \<and> sampler_calls s2 = sampler_calls s1"
  proof (cases "skip_save opt")
    case True
    with sv s1_base show ?thesis by simp
  next
    case False
    with sv have e: "save_each ''samples'' xc (base_count s1) s1 = Inr (n, s2)" by simp
    from save_each_effect [OF e] obtain t2
      where n: "n = base_count s1 + int (length xc)"
      and s2: "s2 = s1\<lparr>out := t2,
                saved := saved s1 @ map (\<lambda>i. (''samples'', sample_name (base_count s1 + int i)))
                                      [0..<length xc]\<rparr>"
      by auto
    have "saved s2 = saved s1 @ map (\<lambda>i. (''samples'', sample_name (base_count s1 + int i)))
                                      [0..<length xc]"
      and "grid_count s2 = grid_count s1" and "sampler_calls s2 = sampler_calls s1"
      by (subst s2, simp)+
    with False n s1_base show ?thesis by simp
  qed
  have "arg_x_T ?args = code \<and> arg_batch_size ?args = n_samples opt" by simp
  moreover note smp cs
  moreover have "sampler_calls s' = sampler_calls s @ [?args]"
    using s' fin s1_calls by simp
  moreover have "grid_count s' = grid_count s"
    using s' fin s1_grid by simp
  moreover have "base_count s' = (if skip_save opt then base_count s
                        else base_count s + int (length xc))"
    using s' fin by simp
  moreover have "saved s' = saved s
         @ map (\<lambda>i. (''process2'', sample_name (int i))) [0..<k2]
         @ map (\<lambda>i. (''process'', sample_name (int i))) [0..<k1]
         @ (if skip_save opt then []
            else map (\<lambda>i. (''samples'', sample_name (base_count s + int i)))
                   [0..<length xc])"
    using s' fin s1_saved by simp
  ultimately show ?thesis by blast
qed

lemma run_data_invariant:
  assumes "run_data body data s = Inr s'" and "P k s"
    and "\<And>p s s' k. body p s = Inr s' \<Longrightarrow> P k s \<Longrightarrow> P (Suc k) s'"
  shows "P (k + length data) s'"
  using assms(1,2)
proof (induction data arbitrary: s k)
  case Nil
  then show ?case by simp
next
  case (Cons p data)
  from Cons.prems(1) obtain s1 where a: "body p s = Inr s1"
    and b: "run_data body data s1 = Inr s'"
    by (auto split: sum.splits)
  from assms(3) [OF a Cons.prems(2)] have "P (Suc k) s1" .
  from Cons.IH [OF b this] show ?case by simp
qed

lemma run_iter_invariant:
  assumes "run_iter body data n s = Inr s'" and "P k s"
    and "\<And>p s s' k. body p s = Inr s' \<Longrightarrow> P k s \<Longrightarrow> P (Suc k) s'"
  shows "P (k + n * length data) s'"
  using assms(1,2)
proof (induction n arbitrary: s k)
  case 0
  then show ?case by simp
next
  case (Suc n)
  from Suc.prems(1) obtain s1 where a: "run_data body data s = Inr s1"
    and b: "run_iter body data n s1 = Inr s'"
    by (auto split: sum.splits)
  have "P (k + length data) s1"
    by (rule run_data_invariant [where P = P, OF a Suc.prems(2)]) (rule assms(3))
  from Suc.IH [OF b this] show ?case by (simp add: add.assoc add.commute)
qed


lemma save_grid_effect:
  assumes "save_grid opt s = Inr s'"
  shows "base_count s' = base_count s \<and> sampler_calls s' = sampler_calls s
       \<and> (if skip_grid opt then grid_count s' = grid_count s \<and> saved s' = saved s
          else grid_count s' = grid_count s + 1
             \<and> saved s' = saved s @ [([], grid_name (grid_count s))])"
  using assms by (auto simp: save_grid_def split: if_splits sum.splits)

section \<open>What the two loops keep\<close>

lemma run_iter_frame:
  assumes run: "run_iter (batch_step L asset opt model sampler code) data n s0 = Inr s"
    and init: "saved s0 = []" "sampler_calls s0 = []"
  shows "grid_count s = grid_count s0
       \<and> saved_in [] (saved s) = []
       \<and> (\<forall>a\<in>set (sampler_calls s). arg_x_T a = code)
       \<and> length (sampler_calls s) = n * length data
       \<and> (\<exists>ks. length ks = n * length data \<and>
            saved_in ''process'' (saved s)
              = concat (map (\<lambda>m. map (\<lambda>i. sample_name (int i)) [0..<m]) ks))
       \<and> (\<exists>ks. length ks = n * length data \<and>
            saved_in ''process2'' (saved s)
              = concat (map (\<lambda>m. map (\<lambda>i. sample_name (int i)) [0..<m]) ks))"
proof -
  let ?P = "\<lambda>k s. grid_count s = grid_count s0
       \<and> saved_in [] (saved s) = []
       \<and> (\<forall>a\<in>set (sampler_calls s). arg_x_T a = code)
       \<and> length (sampler_calls s) = k
       \<and> (\<exists>ks. length ks = k \<and>
            saved_in ''process'' (saved s)
              = concat (map (\<lambda>m. map (\<lambda>i. sample_name (int i)) [0..<m]) ks))
       \<and> (\<exists>ks. length ks = k \<and>
            saved_in ''process2'' (saved s)
              = concat (map (\<lambda>m. map (\<lambda>i. sample_name (int i)) [0..<m]) ks))"
  have start: "?P 0 s0" using init by simp
  have step: "?P (Suc k) s'"
    if b: "batch_step L asset opt model sampler code p s = Inr s'" and P: "?P k s"
    for p s s' k
  proof -
    from batch_step_effect [OF b] obtain args lat steps g' xc fl k2 k1
      where x: "arg_x_T args = code" and "arg_batch_size args = n_samples opt"
        and "sample L sampler args (rng s) = ((lat, steps), g')"
        and "check_safety L asset (decode_first_stage L model lat) = Inr (xc, fl)"
        and calls: "sampler_calls s' = sampler_calls s @ [args]"
        and grid: "grid_count s' = grid_count s"
        and "base_count s' = (if skip_save opt then base_count s
                              else base_count s + int (length xc))"
        and sv: "saved s' = saved s
           @ map (\<lambda>i. (''process2'', sample_name (int i))) [0..<k2]
           @ map (\<lambda>i. (''process'', sample_name (int i))) [0..<k1]
           @ (if skip_save opt then []
              else map (\<lambda>i. (''samples'', sample_name (base_count s + int i))) [0..<length xc])"
      by blast
    from P obtain ks1 ks2
      where ks1: "length ks1 = k" "saved_in ''process'' (saved s)
              = concat (map (\<lambda>m. map (\<lambda>i. sample_name (int i)) [0..<m]) ks1)"
        and ks2: "length ks2 = k" "saved_in ''process2'' (saved s)
              = concat (map (\<lambda>m. map (\<lambda>i. sample_name (int i)) [0..<m]) ks2)"
      by blast
    have root: "saved_in [] (saved s') = []"
      using P by (simp add: sv)
    have p1: "saved_in ''process'' (saved s')
              = concat (map (\<lambda>m. map (\<lambda>i. sample_name (int i)) [0..<m]) (ks1 @ [k1]))"
      using ks1 by (simp add: sv)
    have p2: "saved_in ''process2'' (saved s')
              = concat (map (\<lambda>m. map (\<lambda>i. sample_name (int i)) [0..<m]) (ks2 @ [k2]))"
      using ks2 by (simp add: sv)
    have l1: "length (ks1 @ [k1]) = Suc k" and l2: "length (ks2 @ [k2]) = Suc k"
      using ks1 ks2 by simp_all
    from P x calls grid root p1 p2 l1 l2 show ?thesis
      by (intro conjI) (simp, simp, simp, simp, blast, blast)
  qed
  have "?P (0 + n * length data) s"
    by (rule run_iter_invariant [where P = ?P, OF run start]) (rule step)
  then show ?thesis by simp
qed

lemma run_iter_skip_save:
  assumes run: "run_iter (batch_step L asset opt model sampler code) data n s0 = Inr s"
    and init: "saved s0 = []" and skip: "skip_save opt"
  shows "base_count s = base_count s0 \<and> saved_in ''samples'' (saved s) = []"
proof -
  let ?P = "\<lambda>(k::nat) s. base_count s = base_count s0 \<and> saved_in ''samples'' (saved s) = []"
  have start: "?P 0 s0" using init by simp
  have step: "?P (Suc k) s'"
    if b: "batch_step L asset opt model sampler code p s = Inr s'" and P: "?P k s"
    for p s s' k
  proof -
    from batch_step_effect [OF b] skip obtain k2 k1
      where "base_count s' = base_count s"
        and "saved s' = saved s
           @ map (\<lambda>i. (''process2'', sample_name (int i))) [0..<k2]
           @ map (\<lambda>i. (''process'', sample_name (int i))) [0..<k1] @ []"
      by auto
    with P show ?thesis by simp
  qed
  have "?P (0 + n * length data) s"
    by (rule run_iter_invariant [where P = ?P, OF run start]) (rule step)
  then show ?thesis by simp
qed


section \<open>The subdirectories and the two seeds\<close>



lemma length_filter_key:
  "distinct (map fst t) \<Longrightarrow>
     length (filter (\<lambda>e. fst e = k) t) = (if map_of t k = None then 0 else 1)"
proof (induction t)
  case Nil
  then show ?case by simp
next
  case (Cons e t)
  then show ?case
    by (cases e) (auto simp: map_of_eq_None_iff image_iff)
qed

lemma makedirs_length:
  assumes "makedirs name t = Inr t'" and "distinct (map fst t)"
  shows "length t' + length (filter (\<lambda>e. fst e = name) t) = length t + 1
       \<and> distinct (map fst t')
       \<and> (\<forall>k. k \<noteq> name \<longrightarrow> filter (\<lambda>e. fst e = k) t' = filter (\<lambda>e. fst e = k) t)"
proof (cases "map_of t name")
  case None
  then have "name \<notin> fst ` set t" by (simp add: map_of_eq_None_iff)
  moreover from None assms(1) have "t' = t @ [(name, Dir [])]" by (simp add: makedirs_def)
  ultimately show ?thesis
    using assms(2) length_filter_key [OF assms(2), of name] None by auto
next
  case (Some v)
  with assms(1) have "t' = t" by (auto simp: makedirs_def split: node.splits)
  with Some assms(2) length_filter_key [OF assms(2), of name] show ?thesis by simp
qed

lemma length_without_subdirs:
  "length t = length (filter (\<lambda>e. fst e \<notin> set subdirs) t)
     + length (filter (\<lambda>e. fst e = ''samples'') t)
     + length (filter (\<lambda>e. fst e = ''process'') t)
     + length (filter (\<lambda>e. fst e = ''process2'') t)"
  by (induction t) (auto simp: subdirs_def)

lemma setup_dirs_length:
  assumes "setup_dirs t0 = Inr t" and "distinct (map fst t0)"
  shows "length t = length (filter (\<lambda>e. fst e \<notin> set subdirs) t0) + 3"
proof -
  from assms(1) obtain t1 t2 where a: "makedirs ''samples'' t0 = Inr t1"
    and b: "makedirs ''process'' t1 = Inr t2" and c: "makedirs ''process2'' t2 = Inr t"
    by (auto simp: setup_dirs_def split: sum.splits)
  note A = makedirs_length [OF a assms(2)]
  from A have d1: "distinct (map fst t1)" by blast
  note B = makedirs_length [OF b d1]
  from B have d2: "distinct (map fst t2)" by blast
  note C = makedirs_length [OF c d2]
  have p1: "filter (\<lambda>e. fst e = ''process'') t1 = filter (\<lambda>e. fst e = ''process'') t0"
    and p2: "filter (\<lambda>e. fst e = ''process2'') t1 = filter (\<lambda>e. fst e = ''process2'') t0"
    using A by simp_all
  have q2: "filter (\<lambda>e. fst e = ''process2'') t2 = filter (\<lambda>e. fst e = ''process2'') t1"
    using B by simp
  from A B C p1 p2 q2 length_without_subdirs [of t0] show ?thesis by simp
qed

section \<open>The counters of a run\<close>






text \<open>
  C7. The grid counter has a seed of its own: the number of entries of the output root
  once the three subdirectories exist, minus one. It does not look at the samples
  directory, and with distinct entry names it is the number of entries of the root other
  than the three subdirectories, plus two. A run that saves its grid names it
  \<^verbatim>\<open>grid-NNNN.png\<close> by the seed and ends with the counter one higher; a run with
  \<^verbatim>\<open>--skip_grid\<close> writes nothing to the root and leaves the counter at its seed.
\<close>

theorem grid_counter:
  assumes "main L E opt = Inr r"
  shows "\<exists>t. setup_dirs (out_dirs E (outdir (laion400m_preset opt))) = Inr t
    \<and> (let g = int (length (listdir_root t)) - 1
       in (if skip_grid opt
           then grid_count (final r) = g \<and> saved_in [] (saved (final r)) = []
           else grid_count (final r) = g + 1
              \<and> saved_in [] (saved (final r)) = [grid_name g])
        \<and> (distinct (map fst (out_dirs E (outdir (laion400m_preset opt))))
             \<longrightarrow> g = int (length (filter (\<lambda>e. fst e \<notin> set subdirs)
                                    (out_dirs E (outdir (laion400m_preset opt))))) + 2))"
proof -
  let ?opt = "laion400m_preset opt"
  from assms show ?thesis
  proof (rule main_steps)
    fix model data t es code g2 s
    assume dirs: "setup_dirs (out_dirs E (outdir ?opt)) = Inr t"
      and run: "run_iter (batch_step L (rick E) ?opt model (define_sampler ?opt model) code)
                  data (nat (n_iter ?opt))
                  \<lparr>out = t, saved = [], base_count = int (length es),
                   grid_count = int (length (listdir_root t)) - 1,
                   processList = [], process2List = [], all_samples = [],
                   rng = g2, sampler_calls = []\<rparr> = Inr s"
      and grid: "save_grid ?opt s = Inr (final r)"
    let ?g = "int (length (listdir_root t)) - 1"
    from run_iter_frame [OF run]
    have s: "grid_count s = ?g" "saved_in [] (saved s) = []" by simp_all
    from save_grid_effect [OF grid] s
    have a: "if skip_grid opt
             then grid_count (final r) = ?g \<and> saved_in [] (saved (final r)) = []
             else grid_count (final r) = ?g + 1
                \<and> saved_in [] (saved (final r)) = [grid_name ?g]"
      by (auto split: if_splits)
    have b: "?g = int (length (filter (\<lambda>e. fst e \<notin> set subdirs)
                                 (out_dirs E (outdir ?opt)))) + 2"
      if "distinct (map fst (out_dirs E (outdir ?opt)))"
      using setup_dirs_length [OF dirs that] by (simp add: listdir_root_def)
    from dirs a b show ?thesis
      by (intro exI [of _ t]) (simp add: Let_def)
  qed
qed

theorem grid_counter_witness:
  "distinct (map fst (out_dirs demo_env (outdir default_opts)))
   \<and> length (filter (\<lambda>e. fst e \<notin> set subdirs) (out_dirs demo_env (outdir default_opts))) = 1
   \<and> (case main demo_lib demo_env default_opts of
        Inl e \<Rightarrow> False
      | Inr r \<Rightarrow> grid_count (final r) = 3 + 1
                \<and> saved_in [] (saved (final r)) = [''grid-0003.png''])
   \<and> (case main demo_lib demo_env (default_opts\<lparr>skip_grid := True\<rparr>) of
        Inl e \<Rightarrow> False
      | Inr r \<Rightarrow> grid_count (final r) = 3 \<and> saved_in [] (saved (final r)) = [])"
proof -
  let ?skip = "default_opts\<lparr>skip_grid := True\<rparr>"
  have "\<not> isl (main demo_lib demo_env default_opts)" by code_simp
  then obtain r where r: "main demo_lib demo_env default_opts = Inr r"
    by (cases "main demo_lib demo_env default_opts") auto
  have "\<not> isl (main demo_lib demo_env ?skip)" by code_simp
  then obtain r' where r': "main demo_lib demo_env ?skip = Inr r'"
    by (cases "main demo_lib demo_env ?skip") auto
  have t: "setup_dirs (out_dirs demo_env (outdir (laion400m_preset default_opts))) = Inr demo_tree"
    "setup_dirs (out_dirs demo_env (outdir (laion400m_preset ?skip))) = Inr demo_tree"
    by code_simp+
  have len: "int (length (listdir_root demo_tree)) - 1 = 3" by code_simp
  have name: "grid_name 3 = ''grid-0003.png''" by code_simp
  have d: "distinct (map fst (out_dirs demo_env (outdir default_opts)))" by code_simp
  have f: "length (filter (\<lambda>e. fst e \<notin> set subdirs) (out_dirs demo_env (outdir default_opts))) = 1"
    by code_simp
  have g: "\<not> skip_grid default_opts" "skip_grid ?skip" by (simp_all add: default_opts_def)
  from grid_counter [OF r] t(1) g(1) len name
  have a: "grid_count (final r) = 3 + 1 \<and> saved_in [] (saved (final r)) = [''grid-0003.png'']"
    by (auto simp: Let_def)
  from grid_counter [OF r'] t(2) g(2) len
  have b: "grid_count (final r') = 3 \<and> saved_in [] (saved (final r')) = []"
    by (auto simp: Let_def)
  from a b d f show ?thesis by (simp add: r r')
qed

section \<open>The start code\<close>

lemma load_model_same_machine:
  assumes "cuda_available E' = cuda_available E" and "ckpt_files E' = ckpt_files E"
  shows "load_model L E' cfg path g = load_model L E cfg path g"
  by (simp only: load_model_def load_model_from_config_def best_device_def assms)

lemma make_start_code_fixed:
  assumes "make_start_code L opt dev g = Inr (code, g')" and "fixed_code opt"
  shows "code = Some (fst (randn L [n_samples opt, opt_C opt, opt_H opt div opt_f opt,
                                    opt_W opt div opt_f opt] dev g))"
  using assms by (auto simp: make_start_code_def split: if_splits prod.splits)

lemma make_start_code_fresh:
  assumes "make_start_code L opt dev g = Inr (code, g')" and "\<not> fixed_code opt"
  shows "code = None"
  using assms by (simp add: make_start_code_def)

text \<open>
  C6. Every sampler call of a run receives, as \<^verbatim>\<open>x_T\<close>, the start code of the run,
  one call per iteration and prompt batch. Under \<^verbatim>\<open>--fixed_code\<close> the start code is
  the one tensor \<^verbatim>\<open>torch.randn\<close> draws, before the loops, from the generator as the
  seed and the loading of the model leave it; without the flag it is \<^verbatim>\<open>None\<close>, and
  the sampler draws its own noise. Two runs under \<^verbatim>\<open>--fixed_code\<close> on the same machine
  with the same seed, model files and noise shape have the same start code, whatever
  their prompts, iteration counts and output directories.
\<close>

theorem fixed_code_reuse:
  assumes "main (L :: ('g, 'w, 'cfg, 'cond, 'lat, 'px, 'a) lib) E opt = Inr r"
  shows "(\<forall>a\<in>set (sampler_calls (final r)). arg_x_T a = start_code r)
    \<and> (\<exists>data. prompt_data (prompt_files E) (laion400m_preset opt) = Inr data
          \<and> length (sampler_calls (final r)) = nat (n_iter opt) * length data)
    \<and> (fixed_code opt \<longrightarrow>
         (\<exists>cfg model g1.
             config_files E (config (laion400m_preset opt)) = Some cfg
           \<and> load_model L E cfg (ckpt (laion400m_preset opt)) (seed_everything L (seed opt))
               = Inr (model, g1)
           \<and> start_code r
               = Some (fst (randn L [n_samples opt, opt_C opt, opt_H opt div opt_f opt,
                                     opt_W opt div opt_f opt] (best_device E) g1))))
    \<and> (\<not> fixed_code opt \<longrightarrow> start_code r = None)
    \<and> (\<forall>E' opt' r'.
          main L E' opt' = Inr r' \<and> fixed_code opt \<and> fixed_code opt'
        \<and> seed opt' = seed opt
        \<and> n_samples opt' = n_samples opt \<and> opt_C opt' = opt_C opt
        \<and> opt_H opt' = opt_H opt \<and> opt_W opt' = opt_W opt \<and> opt_f opt' = opt_f opt
        \<and> config (laion400m_preset opt') = config (laion400m_preset opt)
        \<and> ckpt (laion400m_preset opt') = ckpt (laion400m_preset opt)
        \<and> cuda_available E' = cuda_available E
        \<and> config_files E' = config_files E \<and> ckpt_files E' = ckpt_files E
        \<longrightarrow> start_code r' = start_code r)"
proof -
  let ?opt = "laion400m_preset opt"
  let ?shape = "\<lambda>opt. [n_samples opt, opt_C opt, opt_H opt div opt_f opt, opt_W opt div opt_f opt]"
  from assms show ?thesis
  proof (rule main_steps)
    fix cfg model g1 data t es code g2 s
    assume cfg: "config_files E (config ?opt) = Some cfg"
      and load: "load_model L E cfg (ckpt ?opt) (seed_everything L (seed ?opt)) = Inr (model, g1)"
      and data: "prompt_data (prompt_files E) ?opt = Inr data"
      and code: "make_start_code L ?opt (best_device E) g1 = Inr (code, g2)"
      and run: "run_iter (batch_step L (rick E) ?opt model (define_sampler ?opt model) code)
                  data (nat (n_iter ?opt))
                  \<lparr>out = t, saved = [], base_count = int (length es),
                   grid_count = int (length (listdir_root t)) - 1,
                   processList = [], process2List = [], all_samples = [],
                   rng = g2, sampler_calls = []\<rparr> = Inr s"
      and grid: "save_grid ?opt s = Inr (final r)"
      and sc: "start_code r = code"
    from run_iter_frame [OF run]
    have calls: "\<forall>a\<in>set (sampler_calls s). arg_x_T a = code"
      and len: "length (sampler_calls s) = nat (n_iter opt) * length data"
      by simp_all
    from save_grid_effect [OF grid] have same: "sampler_calls (final r) = sampler_calls s"
      by simp
    have fixed: "code = Some (fst (randn L (?shape opt) (best_device E) g1))" if "fixed_code opt"
      using make_start_code_fixed [OF code] that by simp
    have fresh: "code = None" if "\<not> fixed_code opt"
      using make_start_code_fresh [OF code] that by simp
    have two: "start_code r' = start_code r"
      if other: "main L E' opt' = Inr r'"
        and f: "fixed_code opt" "fixed_code opt'"
        and eq: "seed opt' = seed opt" "n_samples opt' = n_samples opt" "opt_C opt' = opt_C opt"
          "opt_H opt' = opt_H opt" "opt_W opt' = opt_W opt" "opt_f opt' = opt_f opt"
          "config (laion400m_preset opt') = config ?opt"
          "ckpt (laion400m_preset opt') = ckpt ?opt"
        and m: "cuda_available E' = cuda_available E" "config_files E' = config_files E"
          "ckpt_files E' = ckpt_files E"
      for E' :: "('w, 'cfg, 'a) env" and opt' r'
    proof -
      let ?opt' = "laion400m_preset opt'"
      from other show ?thesis
      proof (rule main_steps)
        fix cfg' model' g1' code' g2'
        assume cfg': "config_files E' (config ?opt') = Some cfg'"
          and load': "load_model L E' cfg' (ckpt ?opt') (seed_everything L (seed ?opt'))
                        = Inr (model', g1')"
          and code': "make_start_code L ?opt' (best_device E') g1' = Inr (code', g2')"
          and sc': "start_code r' = code'"
        from cfg cfg' eq m have c: "cfg' = cfg" by simp
        have "load_model L E' cfg' (ckpt ?opt') (seed_everything L (seed ?opt'))
                = load_model L E cfg' (ckpt ?opt') (seed_everything L (seed ?opt'))"
          using m(1) m(3) by (rule load_model_same_machine)
        with load load' eq c have g: "g1' = g1" by simp
        have dev: "best_device E' = best_device E" using m by (simp add: best_device_def)
        from make_start_code_fixed [OF code'] f
        have "code' = Some (fst (randn L (?shape opt') (best_device E') g1'))" by simp
        with fixed [OF f(1)] eq g dev sc sc' show ?thesis by simp
      qed
    qed
    show ?thesis
    proof (intro conjI impI allI)
      show "\<forall>a\<in>set (sampler_calls (final r)). arg_x_T a = start_code r"
        using calls same sc by simp
      show "\<exists>data. prompt_data (prompt_files E) ?opt = Inr data
          \<and> length (sampler_calls (final r)) = nat (n_iter opt) * length data"
        using data len same by auto
    next
      assume "fixed_code opt"
      from fixed [OF this] cfg load sc
      show "\<exists>cfg model g1.
             config_files E (config ?opt) = Some cfg
           \<and> load_model L E cfg (ckpt ?opt) (seed_everything L (seed opt)) = Inr (model, g1)
           \<and> start_code r = Some (fst (randn L (?shape opt) (best_device E) g1))"
        by auto
    next
      assume "\<not> fixed_code opt"
      from fresh [OF this] sc show "start_code r = None" by simp
    next
      fix E' :: "('w, 'cfg, 'a) env" and opt' r'
      assume "main L E' opt' = Inr r' \<and> fixed_code opt \<and> fixed_code opt'
        \<and> seed opt' = seed opt
        \<and> n_samples opt' = n_samples opt \<and> opt_C opt' = opt_C opt
        \<and> opt_H opt' = opt_H opt \<and> opt_W opt' = opt_W opt \<and> opt_f opt' = opt_f opt
        \<and> config (laion400m_preset opt') = config ?opt
        \<and> ckpt (laion400m_preset opt') = ckpt ?opt
        \<and> cuda_available E' = cuda_available E
        \<and> config_files E' = config_files E \<and> ckpt_files E' = ckpt_files E"
      then show "start_code r' = start_code r"
        using two by blast
    qed
  qed
qed

lemma two_equal_entries:
  assumes "\<forall>a\<in>set xs. f a = v" and "length xs = 2"
  shows "map f xs = [v, v]"
  using assms by (cases xs; cases "tl xs") auto

theorem fixed_code_reuse_witness:
  "(case main demo_lib demo_env (default_opts\<lparr>fixed_code := True\<rparr>) of
      Inl e \<Rightarrow> False
    | Inr r \<Rightarrow> start_code r = Some [43, 43, 43]
              \<and> map arg_x_T (sampler_calls (final r)) = [Some [43, 43, 43], Some [43, 43, 43]])
   \<and> (case main demo_lib demo_env
             (default_opts\<lparr>fixed_code := True, prompt := Some ''another prompt'', n_iter := 1\<rparr>) of
      Inl e \<Rightarrow> False
    | Inr r \<Rightarrow> start_code r = Some [43, 43, 43])
   \<and> (case main demo_lib demo_env default_opts of
      Inl e \<Rightarrow> False
    | Inr r \<Rightarrow> start_code r = None
              \<and> map arg_x_T (sampler_calls (final r)) = [None, None])"
proof -
  let ?o1 = "default_opts\<lparr>fixed_code := True\<rparr>"
  let ?o2 = "default_opts\<lparr>fixed_code := True, prompt := Some ''another prompt'', n_iter := 1\<rparr>"
  have "\<not> isl (main demo_lib demo_env ?o1)" by code_simp
  then obtain r1 where r1: "main demo_lib demo_env ?o1 = Inr r1"
    by (cases "main demo_lib demo_env ?o1") auto
  have "\<not> isl (main demo_lib demo_env ?o2)" by code_simp
  then obtain r2 where r2: "main demo_lib demo_env ?o2 = Inr r2"
    by (cases "main demo_lib demo_env ?o2") auto
  have "\<not> isl (main demo_lib demo_env default_opts)" by code_simp
  then obtain r3 where r3: "main demo_lib demo_env default_opts = Inr r3"
    by (cases "main demo_lib demo_env default_opts") auto
  have "case main demo_lib demo_env ?o1 of Inl e \<Rightarrow> False
        | Inr r \<Rightarrow> start_code r = Some [43, 43, 43]"
    by code_simp
  then have v1: "start_code r1 = Some [43, 43, 43]" by (simp add: r1)
  have d1: "prompt_data (prompt_files demo_env) (laion400m_preset ?o1)
              = Inr [replicate 3 ''a painting of a virus monster playing guitar'']"
    and d3: "prompt_data (prompt_files demo_env) (laion400m_preset default_opts)
              = Inr [replicate 3 ''a painting of a virus monster playing guitar'']"
    by code_simp+
  have n: "nat (n_iter ?o1) = 2" "nat (n_iter default_opts) = 2"
    by (simp_all add: default_opts_def)
  note t1 = fixed_code_reuse [OF r1]
  note t3 = fixed_code_reuse [OF r3]
  from t1 d1 n have l1: "length (sampler_calls (final r1)) = 2" by auto
  from t1 have a1: "\<forall>a\<in>set (sampler_calls (final r1)). arg_x_T a = start_code r1" by blast
  have c1: "map arg_x_T (sampler_calls (final r1)) = [Some [43, 43, 43], Some [43, 43, 43]]"
    using two_equal_entries [OF a1 l1] v1 by simp
  have "main demo_lib demo_env ?o2 = Inr r2 \<and> fixed_code ?o1 \<and> fixed_code ?o2
        \<and> seed ?o2 = seed ?o1
        \<and> n_samples ?o2 = n_samples ?o1 \<and> opt_C ?o2 = opt_C ?o1
        \<and> opt_H ?o2 = opt_H ?o1 \<and> opt_W ?o2 = opt_W ?o1 \<and> opt_f ?o2 = opt_f ?o1
        \<and> config (laion400m_preset ?o2) = config (laion400m_preset ?o1)
        \<and> ckpt (laion400m_preset ?o2) = ckpt (laion400m_preset ?o1)
        \<and> cuda_available demo_env = cuda_available demo_env
        \<and> config_files demo_env = config_files demo_env
        \<and> ckpt_files demo_env = ckpt_files demo_env"
    using r2 by (simp add: default_opts_def laion400m_preset_def)
  with t1 have "start_code r2 = start_code r1" by blast
  with v1 have v2: "start_code r2 = Some [43, 43, 43]" by simp
  have "\<not> fixed_code default_opts" by (simp add: default_opts_def)
  with t3 have v3: "start_code r3 = None" by blast
  from t3 d3 n have l3: "length (sampler_calls (final r3)) = 2" by auto
  from t3 have a3: "\<forall>a\<in>set (sampler_calls (final r3)). arg_x_T a = start_code r3" by blast
  have c3: "map arg_x_T (sampler_calls (final r3)) = [None, None]"
    using two_equal_entries [OF a3 l3] v3 by simp
  from v1 c1 v2 v3 c3 show ?thesis
    by (simp add: r1 r2 r3)
qed

end
